theory Spec2Isabelle
  imports Main "HOL-Library.Sublist"
begin

section \<open>Characters and the string helpers of zen\<close>

abbreviation LF :: char where "LF \<equiv> CHR 0x0A"
abbreviation CR :: char where "CR \<equiv> CHR 0x0D"
abbreviation TAB :: char where "TAB \<equiv> CHR 0x09"
abbreviation SPC :: char where "SPC \<equiv> CHR 0x20"

text \<open>Modelled from the spec: \<^verbatim>\<open>zen::isWhiteSpace\<close> (zen/string_tools.h is not among the
  sources). The scanner "skips leading whitespace"; the bytes taken as whitespace are those
  of the C locale: space, tab, line feed, vertical tab, form feed, carriage return.\<close>

definition isWhiteSpace :: "char \<Rightarrow> bool" where
  "isWhiteSpace c = (c = SPC \<or> c = TAB \<or> c = LF \<or> c = CHR 0x0B \<or> c = CHR 0x0C \<or> c = CR)"

text \<open>Modelled from the spec: \<^verbatim>\<open>zen::isLineBreak\<close> (not among the sources): a line break
  byte is CR or LF.\<close>

definition isLineBreak :: "char \<Rightarrow> bool" where
  "isLineBreak c = (c = CR \<or> c = LF)"

text \<open>Modelled from the spec: \<^verbatim>\<open>zen::trim\<close>, \<^verbatim>\<open>zen::trimCpy\<close> (not among the sources):
  "trims both ends", that is, removes the whitespace at both ends.\<close>

definition trim :: "string \<Rightarrow> string" where
  "trim s = rev (dropWhile isWhiteSpace (rev (dropWhile isWhiteSpace s)))"

text \<open>Modelled from the spec: \<^verbatim>\<open>zen::startsWith\<close>, \<^verbatim>\<open>zen::endsWith\<close>, \<^verbatim>\<open>zen::contains\<close>
  (not among the sources): prefix, suffix and contiguous substring tests on bytes.\<close>

definition startsWith :: "string \<Rightarrow> string \<Rightarrow> bool" where
  "startsWith s p = (take (length p) s = p)"

definition endsWith :: "string \<Rightarrow> string \<Rightarrow> bool" where
  "endsWith s p = (length p \<le> length s \<and> drop (length s - length p) s = p)"

fun contains :: "string \<Rightarrow> string \<Rightarrow> bool" where
  "contains [] t = (t = [])"
| "contains (c # cs) t = (startsWith (c # cs) t \<or> contains cs t)"

text \<open>Modelled from the spec: \<^verbatim>\<open>zen::replace\<close>, \<^verbatim>\<open>zen::replaceCpy\<close> (not among the
  sources): every occurrence of \<open>old\<close>, found from left to right without overlap, is
  replaced by \<open>new\<close>.\<close>

function replaceCpy :: "string \<Rightarrow> string \<Rightarrow> string \<Rightarrow> string" where
  "replaceCpy s old new =
     (if old = [] \<or> s = [] then s
      else if startsWith s old then new @ replaceCpy (drop (length old) s) old new
      else hd s # replaceCpy (tl s) old new)"
  by pat_completeness auto
termination
  by (relation "measure (\<lambda>(s, old, new). length s)") auto

declare replaceCpy.simps [simp del]

section \<open>The translation collection\<close>

type_synonym TranslationMap = "string \<rightharpoonup> string"
type_synonym SingularPluralPair = "string \<times> string"
type_synonym PluralForms = "string list"
type_synonym TranslationPluralMap = "SingularPluralPair \<rightharpoonup> PluralForms"

record TransHeader =
  languageName :: string
  translatorName :: string
  localeCode :: string
  flagFile :: string
  pluralCount :: int
  pluralDefinition :: string

record ParsingError =
  msg :: string
  row :: nat
  col :: nat

datatype Item =
  SingularItem "string \<times> string"
| PluralItem "SingularPluralPair \<times> PluralForms"

fun hasTranslation :: "Item \<Rightarrow> bool" where
  "hasTranslation (SingularItem v) = (snd v \<noteq> [])"
| "hasTranslation (PluralItem v) = (snd v \<noteq> [])"

record TranslationUnorderedList =
  sequence :: "Item list"
  transUnique :: "string set"
  pluralUnique :: "SingularPluralPair set"
  transOld :: TranslationMap
  transPluralOld :: TranslationPluralMap

text \<open>The fields carry the names of the members without their trailing underscore.
  The constructor: the prior maps are stored, nothing has been added yet.\<close>

definition newList :: "TranslationMap \<Rightarrow> TranslationPluralMap \<Rightarrow> TranslationUnorderedList" where
  "newList old pluralOld =
     \<lparr>sequence = [], transUnique = {}, pluralUnique = {},
      transOld = old, transPluralOld = pluralOld\<rparr>"

text \<open>\<^verbatim>\<open>addItem(const std::string&)\<close>: \<^verbatim>\<open>insert(orig).second\<close> is false when the key is
  already in the set.\<close>

definition addItem :: "string \<Rightarrow> TranslationUnorderedList \<Rightarrow> TranslationUnorderedList" where
  "addItem orig l =
     (if orig \<in> transUnique l then l
      else let l1 = l\<lparr>transUnique := insert orig (transUnique l)\<rparr> in
        (case transOld l1 orig of
           Some t \<Rightarrow>
             if t \<noteq> [] then l1\<lparr>sequence := sequence l1 @ [SingularItem (orig, t)]\<rparr>
             else l1\<lparr>sequence := sequence l1 @ [SingularItem (orig, [])]\<rparr>
         | None \<Rightarrow> l1\<lparr>sequence := sequence l1 @ [SingularItem (orig, [])]\<rparr>))"

text \<open>\<^verbatim>\<open>addItem(const SingularPluralPair&)\<close>.\<close>

definition addItemPlural :: "SingularPluralPair \<Rightarrow> TranslationUnorderedList \<Rightarrow> TranslationUnorderedList" where
  "addItemPlural orig l =
     (if orig \<in> pluralUnique l then l
      else let l1 = l\<lparr>pluralUnique := insert orig (pluralUnique l)\<rparr> in
        (case transPluralOld l1 orig of
           Some t \<Rightarrow>
             if t \<noteq> [] then l1\<lparr>sequence := sequence l1 @ [PluralItem (orig, t)]\<rparr>
             else l1\<lparr>sequence := sequence l1 @ [PluralItem (orig, [])]\<rparr>
         | None \<Rightarrow> l1\<lparr>sequence := sequence l1 @ [PluralItem (orig, [])]\<rparr>))"

definition untranslatedTextExists :: "TranslationUnorderedList \<Rightarrow> bool" where
  "untranslatedTextExists l = (\<exists>item \<in> set (sequence l). \<not> hasTranslation item)"

section \<open>Tokens and the scanner\<close>

datatype TokenType = TkHeader | TkSource | TkTarget | TkEmpty | TkText | TkPlural | TkEnd

record Token =
  ttype :: TokenType
  ttext :: string

text \<open>\<^verbatim>\<open>Token(TokenType t)\<close>: the text starts empty.\<close>

definition mkToken :: "TokenType \<Rightarrow> Token" where
  "mkToken t = \<lparr>ttype = t, ttext = []\<rparr>"

text \<open>\<^verbatim>\<open>KnownTokens::tokens_\<close>. The source iterates an unordered map; the table is listed in
  the order of its initialiser (no tag is a prefix of another, so at most one matches).\<close>

definition knownTokens :: "(TokenType \<times> string) list" where
  "knownTokens =
     [(TkHeader, ''<header>''), (TkSource, ''<source>''), (TkTarget, ''<target>''),
      (TkEmpty, ''<empty>''), (TkPlural, ''<pluralform>'')]"

text \<open>\<^verbatim>\<open>KnownTokens::text\<close>: the empty string for a type that has no tag.\<close>

definition tokenText :: "TokenType \<Rightarrow> string" where
  "tokenText t = (case map_of knownTokens t of Some s \<Rightarrow> s | None \<Rightarrow> [])"

text \<open>Modelled from the spec: \<^verbatim>\<open>zen::BYTE_ORDER_MARK_UTF8\<close> (not among the sources), the
  three bytes of the UTF-8 byte order mark.\<close>

definition BYTE_ORDER_MARK_UTF8 :: string where
  "BYTE_ORDER_MARK_UTF8 = [CHR 0xEF, CHR 0xBB, CHR 0xBF]"

text \<open>The scanner: \<open>pos\<close> is the index of the iterator \<^verbatim>\<open>pos_\<close> in \<^verbatim>\<open>stream_\<close>; the bytes
  from \<^verbatim>\<open>pos_\<close> to the end are \<open>drop pos stream\<close>.\<close>

record Scanner =
  stream :: string
  pos :: nat

definition newScanner :: "string \<Rightarrow> Scanner" where
  "newScanner byteStream =
     \<lparr>stream = byteStream,
      pos = (if startsWith byteStream BYTE_ORDER_MARK_UTF8 then length BYTE_ORDER_MARK_UTF8 else 0)\<rparr>"

definition startsWithKnownTag :: "string \<Rightarrow> bool" where
  "startsWithKnownTag r = (\<exists>p \<in> set knownTokens. startsWith r (snd p))"

text \<open>\<^verbatim>\<open>Scanner::normalize\<close>.\<close>

definition normalize :: "string \<Rightarrow> string" where
  "normalize txt = replaceCpy (replaceCpy (trim txt) [CR, LF] [LF]) [CR] [LF]"

text \<open>The loop \<^verbatim>\<open>while (pos_ != end && !startsWithKnownTag()) pos_ = find(pos_ + 1, end, '<')\<close>
  on the bytes that remain: the result is what remains when the loop ends.\<close>

function textRest :: "string \<Rightarrow> string" where
  "textRest r =
     (if r \<noteq> [] \<and> \<not> startsWithKnownTag r
      then textRest (dropWhile (\<lambda>c. c \<noteq> CHR ''<'') (tl r))
      else r)"
  by pat_completeness auto
termination
proof (relation "measure length")
  show "wf (measure length)" by simp
next
  fix r :: string
  assume "r \<noteq> [] \<and> \<not> startsWithKnownTag r"
  then have "length (tl r) < length r" by (cases r) simp_all
  moreover have "length (dropWhile (\<lambda>c. c \<noteq> CHR ''<'') (tl r)) \<le> length (tl r)"
    by (rule length_dropWhile_le)
  ultimately show "(dropWhile (\<lambda>c. c \<noteq> CHR ''<'') (tl r), r) \<in> measure length" by simp
qed

declare textRest.simps [simp del]

text \<open>The body of \<^verbatim>\<open>Scanner::getNextToken\<close> on the bytes from \<^verbatim>\<open>pos_\<close> on: the token
  and the bytes that remain after it.\<close>

definition scan :: "string \<Rightarrow> Token \<times> string" where
  "scan r0 =
     (let r1 = dropWhile isWhiteSpace r0 in
      if r1 = [] then (mkToken TkEnd, r1)
      else
        (case find (\<lambda>p. startsWith r1 (snd p)) knownTokens of
           Some (tokenEnum, tokenString) \<Rightarrow> (mkToken tokenEnum, drop (length tokenString) r1)
         | None \<Rightarrow>
             let r2 = textRest r1;
                 txt = normalize (take (length r1 - length r2) r1)
             in if txt = [] \<and> r2 = [] then (mkToken TkEnd, r2)
                else (\<lparr>ttype = TkText, ttext = txt\<rparr>, r2)))"

definition getNextToken :: "Scanner \<Rightarrow> Token \<times> Scanner" where
  "getNextToken scn =
     (let (t, r) = scan (drop (pos scn) (stream scn))
      in (t, scn\<lparr>pos := length (stream scn) - length r\<rparr>))"

text \<open>\<^verbatim>\<open>Scanner::posRow\<close> and \<^verbatim>\<open>Scanner::posCol\<close>.\<close>

definition posRow :: "Scanner \<Rightarrow> nat" where
  "posRow scn =
     (let crSum = count_list (take (pos scn) (stream scn)) CR;
          nlSum = count_list (take (pos scn) (stream scn)) LF
      in max crSum nlSum)"

definition posCol :: "Scanner \<Rightarrow> nat" where
  "posCol scn = length (takeWhile (\<lambda>c. \<not> isLineBreak c) (rev (take (pos scn) (stream scn))))"

section \<open>What the parser takes from outside\<close>

text \<open>Modelled from the spec: \<^verbatim>\<open>plural::PluralFormInfo\<close> (parse_plural.h is not among the
  sources), the evaluator behind its narrow interface: the form count, the per-slot
  "single-number?" predicate and the per-slot representative integer.\<close>

record PluralFormInfo =
  getCount :: nat
  isSingleNumberForm :: "nat \<Rightarrow> bool"
  getFirstNumber :: "nat \<Rightarrow> int"

text \<open>The functions of zen and of the plural module that the parser calls and whose code
  is not among the sources are parameters of the model: the UTF-8 check, the conversion
  of the text of \<^verbatim>\<open>plural_count\<close> to \<^verbatim>\<open>int\<close> (\<^verbatim>\<open>zen::stringTo<int>\<close>, which returns an
  \<^verbatim>\<open>int\<close>), and the constructor of the evaluator, which fails (\<^verbatim>\<open>InvalidPluralForm\<close>,
  here \<open>None\<close>) on an invalid or inconsistent rule.\<close>

record Externals =
  isValidUtf :: "string \<Rightarrow> bool"
  stringToInt :: "string \<Rightarrow> int"
  newPluralFormInfo :: "string \<Rightarrow> int \<Rightarrow> PluralFormInfo option"

text \<open>Modelled from the spec: \<^verbatim>\<open>zen::numberTo<std::string>\<close> and \<^verbatim>\<open>zen::formatNumber\<close> (not
  among the sources): "the decimal rendering" of an integer.\<close>

function natToString :: "nat \<Rightarrow> string" where
  "natToString n =
     (if n < 10 then [char_of (48 + n)]
      else natToString (n div 10) @ [char_of (48 + n mod 10)])"
  by pat_completeness auto
termination
  by (relation "measure (\<lambda>n. n)") auto

declare natToString.simps [simp del]

definition numberTo :: "int \<Rightarrow> string" where
  "numberTo i = (if i < 0 then CHR ''-'' # natToString (nat (- i)) else natToString (nat i))"

text \<open>Modelled from the spec: \<^verbatim>\<open>zen::split2\<close>, \<^verbatim>\<open>zen::beforeFirst\<close>, \<^verbatim>\<open>zen::afterFirst\<close> with
  \<^verbatim>\<open>IfNotFoundReturn::none\<close> (not among the sources): the header text "is split on line
  breaks" into blocks, one more than there are line-break bytes; the key is the "text
  before first colon", the value the text after it, both empty when there is no colon.\<close>

fun split2 :: "(char \<Rightarrow> bool) \<Rightarrow> string \<Rightarrow> string list" where
  "split2 isDelim [] = [[]]"
| "split2 isDelim (c # cs) =
     (if isDelim c then [] # split2 isDelim cs
      else (case split2 isDelim cs of [] \<Rightarrow> [[c]] | b # bs \<Rightarrow> (c # b) # bs))"

definition beforeFirst :: "string \<Rightarrow> char \<Rightarrow> string" where
  "beforeFirst s c = (if c \<in> set s then takeWhile (\<lambda>x. x \<noteq> c) s else [])"

definition afterFirst :: "string \<Rightarrow> char \<Rightarrow> string" where
  "afterFirst s c = (if c \<in> set s then tl (dropWhile (\<lambda>x. x \<noteq> c) s) else [])"

text \<open>\<^verbatim>\<open>emplace\<close> of the standard maps: a key that is present keeps its value.\<close>

definition emplace :: "'k \<Rightarrow> 'v \<Rightarrow> ('k \<rightharpoonup> 'v) \<Rightarrow> ('k \<rightharpoonup> 'v)" where
  "emplace k v m = (case m k of None \<Rightarrow> m(k \<mapsto> v) | Some old \<Rightarrow> m)"

section \<open>The parser\<close>

record LngParser =
  scn :: Scanner
  tk :: Token

text \<open>Every \<^verbatim>\<open>ParsingError\<close> of the parser is located at the scanner's position.\<close>

definition errorAt :: "Scanner \<Rightarrow> string \<Rightarrow> ParsingError" where
  "errorAt s m = \<lparr>msg = m, row = posRow s, col = posCol s\<rparr>"

definition newLngParser :: "string \<Rightarrow> LngParser" where
  "newLngParser byteStream =
     (let (t, s) = getNextToken (newScanner byteStream) in \<lparr>scn = s, tk = t\<rparr>)"

definition nextToken :: "LngParser \<Rightarrow> LngParser" where
  "nextToken p = (let (t, s) = getNextToken (scn p) in p\<lparr>scn := s, tk := t\<rparr>)"

definition expectToken :: "TokenType \<Rightarrow> LngParser \<Rightarrow> ParsingError + unit" where
  "expectToken t p =
     (if ttype (tk p) \<noteq> t then Inl (errorAt (scn p) ''Unexpected token'') else Inr ())"

definition consumeToken :: "TokenType \<Rightarrow> LngParser \<Rightarrow> ParsingError + LngParser" where
  "consumeToken t p =
     (case expectToken t p of Inl e \<Rightarrow> Inl e | Inr u \<Rightarrow> Inr (nextToken p))"

text \<open>The first check of a run of checks that fails gives the message of the error thrown:
  a loop whose body may throw is the first failing element of its range.\<close>

fun firstError :: "('a \<Rightarrow> string option) \<Rightarrow> 'a list \<Rightarrow> string option" where
  "firstError f [] = None"
| "firstError f (x # xs) = (case f x of Some m \<Rightarrow> Some m | None \<Rightarrow> firstError f xs)"

definition throwIf :: "bool \<Rightarrow> string \<Rightarrow> string option" where
  "throwIf c m = (if c then Some m else None)"

subsection \<open>The header\<close>

text \<open>The lambda given to \<^verbatim>\<open>split2\<close> in \<^verbatim>\<open>parseHeader\<close>, and the map \<^verbatim>\<open>items\<close> it fills.\<close>

definition addHeaderItem :: "string \<Rightarrow> (string \<rightharpoonup> string) \<Rightarrow> (string \<rightharpoonup> string)" where
  "addHeaderItem block items =
     (let name = trim (beforeFirst block (CHR '':''))
      in if name \<noteq> [] then emplace name (trim (afterFirst block (CHR '':''))) items else items)"

definition headerItems :: "string \<Rightarrow> (string \<rightharpoonup> string)" where
  "headerItems headerRaw = fold addHeaderItem (split2 isLineBreak headerRaw) Map.empty"

definition missingItemMsg :: "string \<Rightarrow> string" where
  "missingItemMsg name =
     replaceCpy (''Cannot find header item '' @ [CHR 0x22] @ ''%x:'' @ [CHR 0x22]) ''%x'' name"

definition getValue :: "(string \<rightharpoonup> string) \<Rightarrow> Scanner \<Rightarrow> string \<Rightarrow> ParsingError + string" where
  "getValue items s name =
     (case items name of None \<Rightarrow> Inl (errorAt s (missingItemMsg name)) | Some v \<Rightarrow> Inr v)"

text \<open>\<^verbatim>\<open>LngParser::parseHeader\<close>. The header is a reference that is assigned field by field,
  so an error comes with the header as it is when the error is thrown.\<close>

definition parseHeaderM ::
  "Externals \<Rightarrow> TransHeader \<Rightarrow> LngParser \<Rightarrow> (ParsingError \<times> TransHeader) + (TransHeader \<times> LngParser)" where
  "parseHeaderM Z header p =
     (case consumeToken TkHeader p of Inl e \<Rightarrow> Inl (e, header) | Inr p1 \<Rightarrow>
      let headerRaw = ttext (tk p1) in
      case consumeToken TkText p1 of Inl e \<Rightarrow> Inl (e, header) | Inr p2 \<Rightarrow>
      let items = headerItems headerRaw in
      case getValue items (scn p2) ''language'' of Inl e \<Rightarrow> Inl (e, header) | Inr v1 \<Rightarrow>
      let h1 = header\<lparr>languageName := v1\<rparr> in
      case getValue items (scn p2) ''locale'' of Inl e \<Rightarrow> Inl (e, h1) | Inr v2 \<Rightarrow>
      let h2 = h1\<lparr>localeCode := v2\<rparr> in
      case getValue items (scn p2) ''image'' of Inl e \<Rightarrow> Inl (e, h2) | Inr v3 \<Rightarrow>
      let h3 = h2\<lparr>flagFile := v3\<rparr> in
      case getValue items (scn p2) ''plural_count'' of Inl e \<Rightarrow> Inl (e, h3) | Inr v4 \<Rightarrow>
      let h4 = h3\<lparr>pluralCount := stringToInt Z v4\<rparr> in
      case getValue items (scn p2) ''plural_definition'' of Inl e \<Rightarrow> Inl (e, h4) | Inr v5 \<Rightarrow>
      let h5 = h4\<lparr>pluralDefinition := v5\<rparr> in
      case getValue items (scn p2) ''translator'' of Inl e \<Rightarrow> Inl (e, h5) | Inr v6 \<Rightarrow>
      Inr (h5\<lparr>translatorName := v6\<rparr>, p2))"

text \<open>A default-constructed \<^verbatim>\<open>TransHeader\<close>, and the free function \<^verbatim>\<open>parseHeader\<close>.\<close>

definition defaultHeader :: TransHeader where
  "defaultHeader =
     \<lparr>languageName = [], translatorName = [], localeCode = [], flagFile = [],
      pluralCount = 0, pluralDefinition = []\<rparr>"

definition parseHeader :: "Externals \<Rightarrow> string \<Rightarrow> ParsingError + TransHeader" where
  "parseHeader Z byteStream =
     (case parseHeaderM Z defaultHeader (newLngParser byteStream) of
        Inl (e, h) \<Rightarrow> Inl e
      | Inr (h, p) \<Rightarrow> Inr h)"

subsection \<open>Validation\<close>

definition ampersandTokenCount :: "string \<Rightarrow> nat" where
  "ampersandTokenCount str = count_list (replaceCpy str ''&&'' []) (CHR ''&'')"

definition endsWithSingleAmp :: "string \<Rightarrow> bool" where
  "endsWithSingleAmp s = (endsWith s ''&'' \<and> \<not> endsWith s ''&&'')"

definition endsWithEllipsis :: "string \<Rightarrow> bool" where
  "endsWithEllipsis s = (endsWith s ''...'' \<or> endsWith s [CHR 0xE2, CHR 0x80, CHR 0xA6])"

definition endsWithColon :: "string \<Rightarrow> bool" where
  "endsWithColon s = (endsWith s '':'' \<or> endsWith s [CHR 0xEF, CHR 0xBC, CHR 0x9A])"

definition endsWithSingleDot :: "string \<Rightarrow> bool" where
  "endsWithSingleDot s =
     ((endsWith s ''.'' \<or>
       endsWith s [CHR 0xE0, CHR 0xA5, CHR 0xA4] \<or>
       endsWith s [CHR 0xE3, CHR 0x80, CHR 0x82])
      \<and>
      (\<not> endsWith s ''..'' \<and>
       \<not> endsWith s [CHR 0xE0, CHR 0xA5, CHR 0xA4, CHR 0xE0, CHR 0xA5, CHR 0xA4] \<and>
       \<not> endsWith s [CHR 0xE3, CHR 0x80, CHR 0x82, CHR 0xE3, CHR 0x80, CHR 0x82]))"

definition msgAmpCount :: string where
  "msgAmpCount = ''Source and translation both need exactly one & character to mark a menu item access key or none at all''"

definition msgAmpEnd :: string where
  "msgAmpEnd = ''The & character to mark a menu item access key must not occur at the end of a string''"

definition msgColon :: string where
  "msgColon = ''Source text ends with a colon character '' @ [CHR 0x22] @ '':'' @ [CHR 0x22] @ '', but translation does not''"

definition msgDot :: string where
  "msgDot = ''Source text ends with a punctuation mark character '' @ [CHR 0x22] @ ''.'' @ [CHR 0x22] @ '', but translation does not''"

definition msgEllipsis :: string where
  "msgEllipsis = ''Source text ends with an ellipsis '' @ [CHR 0x22] @ ''...'' @ [CHR 0x22] @ '', but translation does not''"

definition msgMisspelled :: "string \<Rightarrow> string" where
  "msgMisspelled fixedStr =
     replaceCpy (''Misspelled '' @ [CHR 0x22] @ ''%x'' @ [CHR 0x22] @ '' in translation'') ''%x'' fixedStr"

definition msgSpaceBefore :: "char \<Rightarrow> string" where
  "msgSpaceBefore punctChar =
     replaceCpy (''Text contains a space before the '' @ [CHR 0x22] @ ''%x'' @ [CHR 0x22] @
                 '' character. Are line-breaks really allowed here?'' @
                 '' Maybe this should be a '' @ [CHR 0x22] @ ''non-breaking space'' @ [CHR 0x22] @
                 '' (Windows: Alt 0160    UTF8: 0xC2 0xA0)?'') ''%x'' [punctChar]"

text \<open>The not-to-be-translated texts of the singular check.\<close>

definition fixedStrings :: "string list" where
  "fixedStrings =
     [''FreeFileSync'', ''RealTimeSync'', ''ffs_gui'', ''ffs_batch'', ''ffs_real'', ''ffs_tmp'',
      ''GlobalSettings.xml'']"

text \<open>The not-to-be-translated texts of the plural check.\<close>

definition fixedStringsPlural :: "string list" where
  "fixedStringsPlural =
     [''FreeFileSync'', ''RealTimeSync'', ''ffs_gui'', ''ffs_batch'', ''ffs_tmp'',
      ''GlobalSettings.xml'']"

text \<open>\<^verbatim>\<open>validateTranslation(original, translation)\<close>: the checks in the order of the source;
  the message of the first one that fails, if any.\<close>

definition singularChecks :: "Externals \<Rightarrow> string \<Rightarrow> string \<Rightarrow> string option list" where
  "singularChecks Z original translation =
     [throwIf (original = []) ''Translation source text is empty'',
      throwIf (\<not> isValidUtf Z original) ''Translation source text contains UTF-8 encoding error'',
      throwIf (\<not> isValidUtf Z translation) ''Translation text contains UTF-8 encoding error'']
     @ (if translation \<noteq> [] then
        [firstError (\<lambda>placeholder.
             throwIf (contains original placeholder \<and> \<not> contains translation placeholder)
               (replaceCpy ''Placeholder %x missing in translation'' ''%x'' placeholder))
           [''%x'', ''%y'', ''%z''],
         throwIf (\<not> contains original [LF] \<and> contains translation [LF])
           ''Source text is a one-liner, but translation consists of multiple lines'',
         (let ampCount = ampersandTokenCount original
          in throwIf (ampCount > 1 \<or> ampCount \<noteq> ampersandTokenCount translation) msgAmpCount),
         throwIf (endsWithSingleAmp original \<or> endsWithSingleAmp translation) msgAmpEnd,
         throwIf (endsWithColon original \<and> \<not> endsWithColon translation) msgColon,
         throwIf (endsWithSingleDot original \<and> \<not> endsWithSingleDot translation) msgDot,
         throwIf (endsWithEllipsis original \<and> \<not> endsWithEllipsis translation) msgEllipsis,
         firstError (\<lambda>fixedStr.
             throwIf (contains original fixedStr \<and> \<not> contains translation fixedStr)
               (msgMisspelled fixedStr))
           fixedStrings,
         firstError (\<lambda>punctChar.
             throwIf (contains original [SPC, punctChar] \<or> contains translation [SPC, punctChar])
               (msgSpaceBefore punctChar))
           ''.!?:;$#'']
        else [])"

definition validateTranslation :: "Externals \<Rightarrow> Scanner \<Rightarrow> string \<Rightarrow> string \<Rightarrow> ParsingError + unit" where
  "validateTranslation Z s original translation =
     (case firstError (\<lambda>c. c) (singularChecks Z original translation) of
        Some m \<Rightarrow> Inl (errorAt s m)
      | None \<Rightarrow> Inr ())"

text \<open>The loop over the forms that looks for a later copy of a form without \<^verbatim>\<open>%x\<close>;
  \<open>i\<close> is the index of the head of the list in the whole list of forms.\<close>

fun duplicateCheck :: "string list \<Rightarrow> nat \<Rightarrow> string option" where
  "duplicateCheck [] i = None"
| "duplicateCheck (t # ts) i =
     (if \<not> contains t ''%x'' \<and> t \<in> set ts
      then Some (replaceCpy ''Duplicate plural form translation at index position %x'' ''%x''
                   (numberTo (int (i + 1 + length (takeWhile (\<lambda>x. x \<noteq> t) ts)))))
      else duplicateCheck ts (i + 1))"

text \<open>The body of the loop over the slots.\<close>

definition slotCheck :: "PluralFormInfo \<Rightarrow> SingularPluralPair \<Rightarrow> PluralForms \<Rightarrow> nat \<Rightarrow> string option" where
  "slotCheck pluralInfo original translation i =
     (if isSingleNumberForm pluralInfo i then
        (if contains (fst original) ''%x'' \<or> contains (fst original) ''1'' then
           (let firstNumber = getFirstNumber pluralInfo i
            in throwIf (\<not> contains (translation ! i) ''%x'' \<and>
                        \<not> contains (translation ! i) (numberTo firstNumber))
                 (replaceCpy
                    (replaceCpy ''Plural form translation at index position %y needs to use the decimal number %z or the %x placeholder''
                       ''%y'' (numberTo (int i)))
                    ''%z'' (numberTo firstNumber)))
         else None)
      else
        throwIf (\<not> contains (translation ! i) ''%x'')
          (replaceCpy ''Plural form at index position %y is missing the %x placeholder''
             ''%y'' (numberTo (int i))))"

definition checkSecondaryPlaceholder :: "SingularPluralPair \<Rightarrow> string list \<Rightarrow> string \<Rightarrow> string option" where
  "checkSecondaryPlaceholder original allTexts placeholder =
     (if contains (fst original) placeholder \<or> contains (snd original) placeholder
      then firstError (\<lambda>str.
             throwIf (\<not> contains str placeholder)
               (replaceCpy ''Placeholder %x missing in text'' ''%x'' placeholder))
           allTexts
      else None)"

text \<open>\<^verbatim>\<open>validateTranslation(original, translation, pluralInfo)\<close>.\<close>

definition pluralChecks ::
  "Externals \<Rightarrow> PluralFormInfo \<Rightarrow> SingularPluralPair \<Rightarrow> PluralForms \<Rightarrow> string option list" where
  "pluralChecks Z pluralInfo original translation =
     (let allTexts = [fst original, snd original] @ translation in
      [throwIf (fst original = [] \<or> snd original = []) ''Translation source text is empty'',
       firstError (\<lambda>str. throwIf (\<not> isValidUtf Z str) ''Text contains UTF-8 encoding error'') allTexts,
       throwIf (\<not> contains (snd original) ''%x'')
         ''Plural form source text does not contain %x placeholder'']
      @ (if translation \<noteq> [] then
         [throwIf (getCount pluralInfo \<noteq> length translation)
            (replaceCpy
               (replaceCpy ''Invalid number of plural forms; actual: %x, expected: %y''
                  ''%x'' (numberTo (int (length translation))))
               ''%y'' (numberTo (int (getCount pluralInfo)))),
          duplicateCheck translation 0,
          firstError (slotCheck pluralInfo original translation) [0 ..< length translation],
          checkSecondaryPlaceholder original allTexts ''%y'',
          checkSecondaryPlaceholder original allTexts ''%z'',
          throwIf (\<not> contains (fst original) [LF] \<and> \<not> contains (snd original) [LF] \<and>
                   (\<exists>pform \<in> set translation. contains pform [LF]))
            ''Source text is a one-liner, but at least one plural form translation consists of multiple lines'',
          (let ampCount = ampersandTokenCount (fst original)
           in firstError (\<lambda>str. throwIf (ampCount > 1 \<or> ampersandTokenCount str \<noteq> ampCount) msgAmpCount)
                allTexts),
          firstError (\<lambda>str. throwIf (endsWithSingleAmp str) msgAmpEnd) allTexts,
          (if endsWith (fst original) '':'' \<or> endsWith (snd original) '':''
           then firstError (\<lambda>str. throwIf (\<not> endsWithColon str) msgColon) allTexts else None),
          (if endsWithSingleDot (fst original) \<or> endsWithSingleDot (snd original)
           then firstError (\<lambda>str. throwIf (\<not> endsWithSingleDot str) msgDot) allTexts else None),
          (if endsWithEllipsis (fst original) \<or> endsWithEllipsis (snd original)
           then firstError (\<lambda>str. throwIf (\<not> endsWithEllipsis str) msgEllipsis) allTexts else None),
          firstError (\<lambda>fixedStr.
              if contains (fst original) fixedStr \<or> contains (snd original) fixedStr
              then firstError (\<lambda>str. throwIf (\<not> contains str fixedStr) (msgMisspelled fixedStr)) allTexts
              else None)
            fixedStringsPlural,
          firstError (\<lambda>punctChar.
              firstError (\<lambda>str. throwIf (contains str [SPC, punctChar]) (msgSpaceBefore punctChar)) allTexts)
            ''.!?:;$#'']
         else []))"

definition validateTranslationPlural ::
  "Externals \<Rightarrow> Scanner \<Rightarrow> PluralFormInfo \<Rightarrow> SingularPluralPair \<Rightarrow> PluralForms \<Rightarrow> ParsingError + unit" where
  "validateTranslationPlural Z s pluralInfo original translation =
     (case firstError (\<lambda>c. c) (pluralChecks Z pluralInfo original translation) of
        Some m \<Rightarrow> Inl (errorAt s m)
      | None \<Rightarrow> Inr ())"

subsection \<open>Progress of the scanner\<close>

text \<open>Scanning never moves backwards, and a token other than the end token consumes at
  least one byte. This is what makes the loops of the parser terminate.\<close>

lemma textRest_length: "length (textRest r) \<le> length r"
proof (induction r rule: textRest.induct)
  case (1 r)
  show ?case
  proof (cases "r \<noteq> [] \<and> \<not> startsWithKnownTag r")
    case True
    have "length (textRest (dropWhile (\<lambda>c. c \<noteq> CHR ''<'') (tl r)))
            \<le> length (dropWhile (\<lambda>c. c \<noteq> CHR ''<'') (tl r))"
      using 1 True by blast
    also have "\<dots> \<le> length (tl r)" by (rule length_dropWhile_le)
    also have "\<dots> \<le> length r" by simp
    finally show ?thesis using True by (subst textRest.simps) simp
  next
    case False
    then show ?thesis by (subst textRest.simps) auto
  qed
qed

lemma textRest_shorter:
  assumes "r \<noteq> []" "\<not> startsWithKnownTag r"
  shows "length (textRest r) < length r"
proof -
  have "textRest r = textRest (dropWhile (\<lambda>c. c \<noteq> CHR ''<'') (tl r))"
    using assms by (subst textRest.simps) simp
  moreover have "length (textRest (dropWhile (\<lambda>c. c \<noteq> CHR ''<'') (tl r)))
            \<le> length (dropWhile (\<lambda>c. c \<noteq> CHR ''<'') (tl r))"
    by (rule textRest_length)
  moreover have "length (dropWhile (\<lambda>c. c \<noteq> CHR ''<'') (tl r)) \<le> length (tl r)"
    by (rule length_dropWhile_le)
  moreover have "length (tl r) < length r" using assms(1) by (cases r) simp_all
  ultimately show ?thesis by simp
qed

lemma find_knownTokens_Some:
  "find (\<lambda>p. startsWith r (snd p)) knownTokens = Some (a, b) \<Longrightarrow> b \<noteq> [] \<and> startsWith r b"
  by (auto simp: knownTokens_def split: if_splits)

lemma find_knownTokens_None:
  "find (\<lambda>p. startsWith r (snd p)) knownTokens = None \<Longrightarrow> \<not> startsWithKnownTag r"
  by (auto simp: find_None_iff startsWithKnownTag_def)

lemma scan_end: "dropWhile isWhiteSpace r = [] \<Longrightarrow> scan r = (mkToken TkEnd, [])"
  unfolding scan_def Let_def by (simp del: dropWhile_eq_Nil_conv)

lemma scan_tag:
  "dropWhile isWhiteSpace r \<noteq> [] \<Longrightarrow>
   find (\<lambda>p. startsWith (dropWhile isWhiteSpace r) (snd p)) knownTokens = Some (a, b) \<Longrightarrow>
   scan r = (mkToken a, drop (length b) (dropWhile isWhiteSpace r))"
  unfolding scan_def Let_def by (simp del: dropWhile_eq_Nil_conv)

lemma scan_text:
  "dropWhile isWhiteSpace r \<noteq> [] \<Longrightarrow>
   find (\<lambda>p. startsWith (dropWhile isWhiteSpace r) (snd p)) knownTokens = None \<Longrightarrow>
   scan r =
     (if normalize (take (length (dropWhile isWhiteSpace r) - length (textRest (dropWhile isWhiteSpace r)))
            (dropWhile isWhiteSpace r)) = [] \<and> textRest (dropWhile isWhiteSpace r) = []
      then (mkToken TkEnd, textRest (dropWhile isWhiteSpace r))
      else (\<lparr>ttype = TkText,
             ttext = normalize (take (length (dropWhile isWhiteSpace r) - length (textRest (dropWhile isWhiteSpace r)))
               (dropWhile isWhiteSpace r))\<rparr>,
            textRest (dropWhile isWhiteSpace r)))"
  unfolding scan_def Let_def by (simp del: dropWhile_eq_Nil_conv)

lemma scan_progress:
  assumes "scan r = (t, r')"
  shows "length r' \<le> length r \<and> (ttype t \<noteq> TkEnd \<longrightarrow> length r' < length r)"
proof -
  let ?r1 = "dropWhile isWhiteSpace r"
  have le: "length ?r1 \<le> length r" by (rule length_dropWhile_le)
  show ?thesis
  proof (cases "?r1 = []")
    case True
    then have "scan r = (mkToken TkEnd, [])" by (rule scan_end)
    then show ?thesis using assms by (auto simp: mkToken_def)
  next
    case ne: False
    show ?thesis
    proof (cases "find (\<lambda>p. startsWith ?r1 (snd p)) knownTokens")
      case None
      then have "\<not> startsWithKnownTag ?r1" by (rule find_knownTokens_None)
      then have "length (textRest ?r1) < length ?r1" using ne by (simp add: textRest_shorter)
      moreover have "r' = textRest ?r1"
        using assms scan_text [OF ne None] by (auto split: if_splits)
      ultimately show ?thesis using le by simp
    next
      case (Some ab)
      obtain a b where ab: "ab = (a, b)" by (cases ab)
      have "b \<noteq> []" using Some ab find_knownTokens_Some by blast
      then have lb: "0 < length b" by simp
      have "r' = drop (length b) ?r1"
        using assms scan_tag [OF ne Some [unfolded ab]] by simp
      then have lr: "length r' = length ?r1 - length b" by simp
      have l1: "0 < length ?r1" using ne by simp
      show ?thesis using le lb lr l1 by arith
    qed
  qed
qed

lemma scan_length: "scan r = (t, r') \<Longrightarrow> length r' \<le> length r"
  using scan_progress by blast

lemma scan_shorter: "scan r = (t, r') \<Longrightarrow> ttype t \<noteq> TkEnd \<Longrightarrow> length r' < length r"
  using scan_progress by blast

text \<open>The measure of the parser loops: the bytes that remain, and whether the token
  in hand is still to be consumed.\<close>

definition parserMeasure :: "LngParser \<Rightarrow> nat" where
  "parserMeasure p =
     2 * length (drop (pos (scn p)) (stream (scn p))) + (if ttype (tk p) = TkEnd then 0 else 1)"

lemma nextToken_measure_le: "parserMeasure (nextToken p) \<le> parserMeasure p"
proof -
  obtain t r where sc: "scan (drop (pos (scn p)) (stream (scn p))) = (t, r)" by fastforce
  have l1: "length r \<le> length (drop (pos (scn p)) (stream (scn p)))" using sc by (rule scan_length)
  have l2: "ttype t \<noteq> TkEnd \<Longrightarrow> length r < length (drop (pos (scn p)) (stream (scn p)))"
    using sc by (rule scan_shorter)
  have "parserMeasure (nextToken p) = 2 * length r + (if ttype t = TkEnd then 0 else 1)"
    using sc l1 by (simp add: parserMeasure_def nextToken_def getNextToken_def)
  then show ?thesis using l1 l2 by (auto simp: parserMeasure_def split: if_splits)
qed

lemma nextToken_measure_less:
  assumes "ttype (tk p) \<noteq> TkEnd" shows "parserMeasure (nextToken p) < parserMeasure p"
proof -
  obtain t r where sc: "scan (drop (pos (scn p)) (stream (scn p))) = (t, r)" by fastforce
  have l1: "length r \<le> length (drop (pos (scn p)) (stream (scn p)))" using sc by (rule scan_length)
  have l2: "ttype t \<noteq> TkEnd \<Longrightarrow> length r < length (drop (pos (scn p)) (stream (scn p)))"
    using sc by (rule scan_shorter)
  have "parserMeasure (nextToken p) = 2 * length r + (if ttype t = TkEnd then 0 else 1)"
    using sc l1 by (simp add: parserMeasure_def nextToken_def getNextToken_def)
  then show ?thesis using l1 l2 assms by (auto simp: parserMeasure_def split: if_splits)
qed

lemma consumeToken_measure_le:
  "consumeToken t p = Inr p' \<Longrightarrow> parserMeasure p' \<le> parserMeasure p"
  using nextToken_measure_le [of p]
  by (auto simp: consumeToken_def expectToken_def split: if_splits)

lemma consumeToken_measure_less:
  "consumeToken t p = Inr p' \<Longrightarrow> t \<noteq> TkEnd \<Longrightarrow> parserMeasure p' < parserMeasure p"
  using nextToken_measure_less [of p]
  by (auto simp: consumeToken_def expectToken_def split: if_splits)


subsection \<open>Entries\<close>

text \<open>The loop \<^verbatim>\<open>while (token().type == TokenType::plural)\<close> of \<^verbatim>\<open>parsePlural\<close>.\<close>

function pluralFormsLoop :: "LngParser \<Rightarrow> PluralForms \<Rightarrow> ParsingError + (PluralForms \<times> LngParser)" where
  "pluralFormsLoop p pluralList =
     (if ttype (tk p) = TkPlural then
        (let p1 = nextToken p;
             pluralForm = ttext (tk p1)
         in case consumeToken TkText p1 of
              Inl e \<Rightarrow> Inl e
            | Inr p2 \<Rightarrow> pluralFormsLoop p2 (pluralList @ [pluralForm]))
      else Inr (pluralList, p))"
  by pat_completeness auto
termination
proof (relation "measure (\<lambda>(p, pluralList). parserMeasure p)")
  show "wf (measure (\<lambda>(p, pluralList). parserMeasure p))" by simp
next
  fix p :: LngParser and pluralList :: PluralForms and p1 pluralForm p2
  assume a: "ttype (tk p) = TkPlural" "p1 = nextToken p" "consumeToken TkText p1 = Inr p2"
  have "parserMeasure p1 < parserMeasure p" using a nextToken_measure_less [of p] by simp
  moreover have "parserMeasure p2 \<le> parserMeasure p1" using a consumeToken_measure_le by blast
  ultimately show "((p2, pluralList @ [pluralForm]), (p, pluralList))
                     \<in> measure (\<lambda>(p, pluralList). parserMeasure p)" by simp
qed

declare pluralFormsLoop.simps [simp del]

text \<open>\<^verbatim>\<open>LngParser::parsePlural\<close>.\<close>

definition parsePlural ::
  "Externals \<Rightarrow> PluralFormInfo \<Rightarrow> TranslationPluralMap \<Rightarrow> LngParser
     \<Rightarrow> ParsingError + (TranslationPluralMap \<times> LngParser)" where
  "parsePlural Z pluralInfo pluralOut p =
     (case consumeToken TkPlural p of Inl e \<Rightarrow> Inl e | Inr p1 \<Rightarrow>
      let engSingular = ttext (tk p1) in
      case consumeToken TkText p1 of Inl e \<Rightarrow> Inl e | Inr p2 \<Rightarrow>
      case consumeToken TkPlural p2 of Inl e \<Rightarrow> Inl e | Inr p3 \<Rightarrow>
      let engPlural = ttext (tk p3) in
      case consumeToken TkText p3 of Inl e \<Rightarrow> Inl e | Inr p4 \<Rightarrow>
      let original = (engSingular, engPlural) in
      case consumeToken TkTarget p4 of Inl e \<Rightarrow> Inl e | Inr p5 \<Rightarrow>
      case pluralFormsLoop p5 [] of Inl e \<Rightarrow> Inl e | Inr (pluralList, p6) \<Rightarrow>
      case (if pluralList = [] then consumeToken TkEmpty p6 else Inr p6) of
        Inl e \<Rightarrow> Inl e | Inr p7 \<Rightarrow>
      case validateTranslationPlural Z (scn p7) pluralInfo original pluralList of
        Inl e \<Rightarrow> Inl e | Inr u \<Rightarrow>
      Inr (emplace original pluralList pluralOut, p7))"

text \<open>The translation of a singular entry, read after \<^verbatim>\<open>consumeToken(TokenType::target)\<close>
  in \<^verbatim>\<open>parseRegular\<close>: the text of a text token, or empty after the tag for empty.\<close>

definition readTranslation :: "LngParser \<Rightarrow> ParsingError + (string \<times> LngParser)" where
  "readTranslation p =
     (if ttype (tk p) = TkText then Inr (ttext (tk p), nextToken p)
      else (case consumeToken TkEmpty p of Inl e \<Rightarrow> Inl e | Inr p' \<Rightarrow> Inr ([], p')))"

text \<open>\<^verbatim>\<open>LngParser::parseRegular\<close>. Both maps are references; each is written by the
  \<^verbatim>\<open>emplace\<close> that ends the entry, after everything that can throw, so an error leaves
  them as they were before the entry.\<close>

definition parseRegular ::
  "Externals \<Rightarrow> PluralFormInfo \<Rightarrow> TranslationMap \<Rightarrow> TranslationPluralMap \<Rightarrow> LngParser
     \<Rightarrow> ParsingError + (TranslationMap \<times> TranslationPluralMap \<times> LngParser)" where
  "parseRegular Z pluralInfo out pluralOut p =
     (case consumeToken TkSource p of Inl e \<Rightarrow> Inl e | Inr p1 \<Rightarrow>
      if ttype (tk p1) = TkPlural then
        (case parsePlural Z pluralInfo pluralOut p1 of
           Inl e \<Rightarrow> Inl e
         | Inr (pluralOut', p') \<Rightarrow> Inr (out, pluralOut', p'))
      else
        let original = ttext (tk p1) in
        case consumeToken TkText p1 of Inl e \<Rightarrow> Inl e | Inr p2 \<Rightarrow>
        case consumeToken TkTarget p2 of Inl e \<Rightarrow> Inl e | Inr p3 \<Rightarrow>
        case readTranslation p3 of Inl e \<Rightarrow> Inl e | Inr (translation, p4) \<Rightarrow>
        case validateTranslation Z (scn p4) original translation of
          Inl e \<Rightarrow> Inl e | Inr u \<Rightarrow>
        Inr (emplace original translation out, pluralOut, p4))"

lemma pluralFormsLoop_measure_le:
  "pluralFormsLoop p acc = Inr (forms, p') \<Longrightarrow> parserMeasure p' \<le> parserMeasure p"
proof (induction p acc rule: pluralFormsLoop.induct)
  case (1 p pluralList)
  show ?case
  proof (cases "ttype (tk p) = TkPlural")
    case False
    then show ?thesis using "1.prems" by (subst (asm) pluralFormsLoop.simps) simp
  next
    case True
    then obtain p2 where c: "consumeToken TkText (nextToken p) = Inr p2"
      and r: "pluralFormsLoop p2 (pluralList @ [ttext (tk (nextToken p))]) = Inr (forms, p')"
      using "1.prems" by (subst (asm) pluralFormsLoop.simps) (auto simp: Let_def split: sum.splits)
    have "parserMeasure p' \<le> parserMeasure p2" using "1.IH" True c r by simp
    also have "\<dots> \<le> parserMeasure (nextToken p)" using c by (rule consumeToken_measure_le)
    also have "\<dots> \<le> parserMeasure p" by (rule nextToken_measure_le)
    finally show ?thesis .
  qed
qed

lemma parsePlural_measure_le:
  assumes "parsePlural Z pluralInfo pluralOut p = Inr (pluralOut', p')"
  shows "parserMeasure p' \<le> parserMeasure p"
proof -
  from assms obtain p1 p2 p3 p4 p5 p6 pluralList where
    c1: "consumeToken TkPlural p = Inr p1" and
    c2: "consumeToken TkText p1 = Inr p2" and
    c3: "consumeToken TkPlural p2 = Inr p3" and
    c4: "consumeToken TkText p3 = Inr p4" and
    c5: "consumeToken TkTarget p4 = Inr p5" and
    c6: "pluralFormsLoop p5 [] = Inr (pluralList, p6)" and
    c7: "(if pluralList = [] then consumeToken TkEmpty p6 else Inr p6) = Inr p'"
    unfolding parsePlural_def Let_def by (auto split: sum.splits prod.splits)
  have "parserMeasure p' \<le> parserMeasure p6"
    using c7 consumeToken_measure_le by (auto split: if_splits)
  also have "\<dots> \<le> parserMeasure p5" using c6 by (rule pluralFormsLoop_measure_le)
  also have "\<dots> \<le> parserMeasure p4" using c5 by (rule consumeToken_measure_le)
  also have "\<dots> \<le> parserMeasure p3" using c4 by (rule consumeToken_measure_le)
  also have "\<dots> \<le> parserMeasure p2" using c3 by (rule consumeToken_measure_le)
  also have "\<dots> \<le> parserMeasure p1" using c2 by (rule consumeToken_measure_le)
  also have "\<dots> \<le> parserMeasure p" using c1 by (rule consumeToken_measure_le)
  finally show ?thesis .
qed

lemma readTranslation_measure_le:
  "readTranslation p = Inr (translation, p') \<Longrightarrow> parserMeasure p' \<le> parserMeasure p"
  using consumeToken_measure_le [of TkEmpty p p'] nextToken_measure_le [of p]
  by (auto simp: readTranslation_def split: if_splits sum.splits)

lemma parseRegular_measure_less:
  assumes "parseRegular Z pluralInfo out pluralOut p = Inr (out', pluralOut', p')"
  shows "parserMeasure p' < parserMeasure p"
proof -
  from assms obtain p1 where c1: "consumeToken TkSource p = Inr p1"
    unfolding parseRegular_def by (auto split: sum.splits)
  have less: "parserMeasure p1 < parserMeasure p"
    using c1 by (rule consumeToken_measure_less) simp
  show ?thesis
  proof (cases "ttype (tk p1) = TkPlural")
    case True
    then have "parsePlural Z pluralInfo pluralOut p1 = Inr (pluralOut', p')"
      using assms c1 unfolding parseRegular_def by (auto split: sum.splits)
    then have "parserMeasure p' \<le> parserMeasure p1" by (rule parsePlural_measure_le)
    then show ?thesis using less by simp
  next
    case False
    then obtain p2 p3 translation where
      c2: "consumeToken TkText p1 = Inr p2" and
      c3: "consumeToken TkTarget p2 = Inr p3" and
      c4: "readTranslation p3 = Inr (translation, p')"
      using assms c1 unfolding parseRegular_def Let_def
      by (auto split: sum.splits prod.splits)
    have "parserMeasure p' \<le> parserMeasure p3"
      using c4 by (rule readTranslation_measure_le)
    also have "\<dots> \<le> parserMeasure p2" using c3 by (rule consumeToken_measure_le)
    also have "\<dots> \<le> parserMeasure p1" using c2 by (rule consumeToken_measure_le)
    finally show ?thesis using less by simp
  qed
qed

text \<open>The loop \<^verbatim>\<open>while (token().type != TokenType::end) parseRegular(out, pluralOut, pi)\<close>
  of \<^verbatim>\<open>parse\<close>. The maps are the caller's, so when an entry throws they stay as the
  entries before it left them.\<close>

function parseLoop ::
  "Externals \<Rightarrow> PluralFormInfo \<Rightarrow> TranslationMap \<Rightarrow> TranslationPluralMap \<Rightarrow> LngParser
     \<Rightarrow> ParsingError option \<times> TranslationMap \<times> TranslationPluralMap" where
  "parseLoop Z pluralInfo out pluralOut p =
     (if ttype (tk p) \<noteq> TkEnd then
        (case parseRegular Z pluralInfo out pluralOut p of
           Inl e \<Rightarrow> (Some e, out, pluralOut)
         | Inr (out', pluralOut', p') \<Rightarrow> parseLoop Z pluralInfo out' pluralOut' p')
      else (None, out, pluralOut))"
  by pat_completeness auto
termination
proof (relation "measure (\<lambda>(Z, pluralInfo, out, pluralOut, p). parserMeasure p)")
  show "wf (measure (\<lambda>(Z, pluralInfo, out, pluralOut, p). parserMeasure p))" by simp
next
  fix Z pluralInfo out pluralOut p res out' rest pluralOut' p'
  assume "parseRegular Z pluralInfo out pluralOut p = Inr res" "(out', rest) = res"
    "(pluralOut', p') = rest"
  then have "parseRegular Z pluralInfo out pluralOut p = Inr (out', pluralOut', p')" by simp
  then have "parserMeasure p' < parserMeasure p" by (rule parseRegular_measure_less)
  then show "((Z, pluralInfo, out', pluralOut', p'), (Z, pluralInfo, out, pluralOut, p))
               \<in> measure (\<lambda>(Z, pluralInfo, out, pluralOut, p). parserMeasure p)" by simp
qed

declare parseLoop.simps [simp del]

text \<open>\<^verbatim>\<open>LngParser::parse\<close>. Only the constructor of the evaluator throws
  \<^verbatim>\<open>InvalidPluralForm\<close>.\<close>

definition parse ::
  "Externals \<Rightarrow> TranslationMap \<Rightarrow> TranslationPluralMap \<Rightarrow> TransHeader \<Rightarrow> LngParser
     \<Rightarrow> ParsingError option \<times> TransHeader \<times> TranslationMap \<times> TranslationPluralMap" where
  "parse Z out pluralOut header p =
     (case parseHeaderM Z header p of
        Inl (e, h) \<Rightarrow> (Some e, h, out, pluralOut)
      | Inr (h, p1) \<Rightarrow>
          (case newPluralFormInfo Z (pluralDefinition h) (pluralCount h) of
             None \<Rightarrow> (Some (errorAt (scn p1) ''Invalid plural form definition''), h, out, pluralOut)
           | Some pluralInfo \<Rightarrow>
               (let (e, out', pluralOut') = parseLoop Z pluralInfo out pluralOut p1
                in (e, h, out', pluralOut'))))"

text \<open>\<^verbatim>\<open>parseLng\<close>: the three references the caller passes, and what they hold when the
  call returns (no error) or throws (the error).\<close>

definition parseLng ::
  "Externals \<Rightarrow> string \<Rightarrow> TransHeader \<Rightarrow> TranslationMap \<Rightarrow> TranslationPluralMap
     \<Rightarrow> ParsingError option \<times> TransHeader \<times> TranslationMap \<times> TranslationPluralMap" where
  "parseLng Z byteStream header out pluralOut =
     parse Z Map.empty Map.empty header (newLngParser byteStream)"

section \<open>The generator\<close>

text \<open>The two lambdas given to \<^verbatim>\<open>visitItems\<close> in \<^verbatim>\<open>generateLng\<close>: the text an item
  contributes.\<close>

fun itemLines :: "Item \<Rightarrow> string" where
  "itemLines (SingularItem trans') =
     (let original = fst trans'; translation = snd trans' in
      [LF, LF] @ tokenText TkSource @ [SPC] @ original @ [LF]
      @ (if contains original [LF] then [LF] else [])
      @ tokenText TkTarget @ [SPC] @ translation
      @ (if translation = [] then tokenText TkEmpty else []))"
| "itemLines (PluralItem transPlural) =
     (let engSingular = fst (fst transPlural);
          engPlural = snd (fst transPlural);
          forms = snd transPlural in
      [LF, LF] @ tokenText TkSource @ [LF]
      @ [TAB] @ tokenText TkPlural @ [SPC] @ engSingular @ [LF]
      @ [TAB] @ tokenText TkPlural @ [SPC] @ engPlural @ [LF]
      @ tokenText TkTarget
      @ concat (map (\<lambda>plForm. [LF, TAB] @ tokenText TkPlural @ [SPC] @ plForm) forms)
      @ (if forms = [] then [SPC] @ tokenText TkEmpty else []))"

text \<open>One step of \<^verbatim>\<open>visitItems\<close>: the item's text goes to \<^verbatim>\<open>topLines\<close> when untranslated
  items come first and it has no translation, to \<^verbatim>\<open>mainLines\<close> otherwise.\<close>

definition visitItem :: "bool \<Rightarrow> Item \<Rightarrow> string \<times> string \<Rightarrow> string \<times> string" where
  "visitItem untranslatedToTop item lines =
     (if untranslatedToTop \<and> \<not> hasTranslation item
      then (fst lines @ itemLines item, snd lines)
      else (fst lines, snd lines @ itemLines item))"

definition headerLines :: "TransHeader \<Rightarrow> string" where
  "headerLines header =
     tokenText TkHeader @ [LF]
     @ [TAB] @ ''language: '' @ languageName header @ [LF]
     @ [TAB] @ ''locale: '' @ localeCode header @ [LF]
     @ [TAB] @ ''image: '' @ flagFile header @ [LF]
     @ [TAB] @ ''plural_count: '' @ numberTo (pluralCount header) @ [LF]
     @ [TAB] @ ''plural_definition: '' @ pluralDefinition header @ [LF]
     @ [TAB] @ ''translator: '' @ translatorName header"

definition generateLng :: "TranslationUnorderedList \<Rightarrow> TransHeader \<Rightarrow> bool \<Rightarrow> string" where
  "generateLng inp header untranslatedToTop =
     (let (topLines, mainLines) = fold (visitItem untranslatedToTop) (sequence inp) ([], []);
          output = headerLines header @ topLines @ mainLines
      in replaceCpy output [LF] [CR, LF])"

text \<open>A call of either overload, and a run of such calls in order.\<close>

datatype ItemKey = SingularKey string | PluralKey SingularPluralPair

fun addKey :: "ItemKey \<Rightarrow> TranslationUnorderedList \<Rightarrow> TranslationUnorderedList" where
  "addKey (SingularKey k) l = addItem k l"
| "addKey (PluralKey k) l = addItemPlural k l"

fun addKeys :: "ItemKey list \<Rightarrow> TranslationUnorderedList \<Rightarrow> TranslationUnorderedList" where
  "addKeys [] l = l"
| "addKeys (k # ks) l = addKeys ks (addKey k l)"

text \<open>The translation a first call gives a key: the prior one, empty when there is none.\<close>

definition seedOf :: "('k \<rightharpoonup> 'v list) \<Rightarrow> 'k \<Rightarrow> 'v list" where
  "seedOf m k = (case m k of None \<Rightarrow> [] | Some t \<Rightarrow> t)"

text \<open>The names \<^verbatim>\<open>parseHeader\<close> asks for, in the order in which it asks.\<close>

definition requiredKeys :: "string list" where
  "requiredKeys =
     [''language'', ''locale'', ''image'', ''plural_count'', ''plural_definition'', ''translator'']"

section \<open>Line breaks, as the specification counts them\<close>




section \<open>Instances of the parameters\<close>

text \<open>The theorems hold for every value of the parameters. To run the model on a given
  input, the parameters are set to: a UTF-8 check that accepts exactly the 7-bit texts
  (which every UTF-8 check accepts); a conversion that reads an optional sign and the
  decimal digits that follow, up to the first byte that is not a digit; and an evaluator
  that knows the rule \<^verbatim>\<open>n == 1 ? 0 : 1\<close> with two forms, where form 0 stands for the single
  number 1 and form 1 is first selected by 0.\<close>

fun digitsValue :: "string \<Rightarrow> int \<Rightarrow> int" where
  "digitsValue [] acc = acc"
| "digitsValue (c # cs) acc =
     (if 48 \<le> (of_char c :: nat) \<and> (of_char c :: nat) \<le> 57
      then digitsValue cs (acc * 10 + (int (of_char c) - 48)) else acc)"

definition extractInteger :: "string \<Rightarrow> int" where
  "extractInteger str =
     (case dropWhile isWhiteSpace str of
        [] \<Rightarrow> 0
      | c # cs \<Rightarrow>
          if c = CHR ''-'' then - digitsValue cs 0
          else if c = CHR ''+'' then digitsValue cs 0
          else digitsValue (c # cs) 0)"

definition asciiOnly :: "string \<Rightarrow> bool" where
  "asciiOnly s = list_all (\<lambda>c. (of_char c :: nat) < 128) s"

definition englishPlural :: PluralFormInfo where
  "englishPlural =
     \<lparr>getCount = 2, isSingleNumberForm = (\<lambda>i. i = 0),
      getFirstNumber = (\<lambda>i. if i = 0 then 1 else 0)\<rparr>"

definition sampleExternals :: Externals where
  "sampleExternals =
     \<lparr>isValidUtf = asciiOnly, stringToInt = extractInteger,
      newPluralFormInfo = (\<lambda>definition n.
        if definition = ''n == 1 ? 0 : 1'' \<and> n = 2 then Some englishPlural else None)\<rparr>"

section \<open>Notions used in the statements\<close>

text \<open>The message of the error for an empty original, and a check that does not give it.\<close>

definition emptyMsg :: string where
  "emptyMsg = ''Translation source text is empty''"

definition okc :: "string option \<Rightarrow> bool" where
  "okc c = (c \<noteq> Some emptyMsg)"

text \<open>The first \<open>n\<close> entries, from the state of the loop of \<^verbatim>\<open>parse\<close>: the maps and the
  parser after them, when each of them parses and validates.\<close>

fun entriesAfter ::
  "Externals \<Rightarrow> PluralFormInfo \<Rightarrow> nat \<Rightarrow> TranslationMap \<Rightarrow> TranslationPluralMap \<Rightarrow> LngParser
     \<Rightarrow> (TranslationMap \<times> TranslationPluralMap \<times> LngParser) option" where
  "entriesAfter Z pluralInfo 0 out pluralOut p = Some (out, pluralOut, p)"
| "entriesAfter Z pluralInfo (Suc n) out pluralOut p =
     (if ttype (tk p) = TkEnd then None
      else (case parseRegular Z pluralInfo out pluralOut p of
              Inl e \<Rightarrow> None
            | Inr (out', pluralOut', p') \<Rightarrow> entriesAfter Z pluralInfo n out' pluralOut' p'))"

text \<open>A header block for concrete inputs, with the rule the sample evaluator knows.\<close>

definition sampleHeader :: string where
  "sampleHeader =
     ''<header>'' @ [LF] @ ''language: English'' @ [LF] @ ''locale: en'' @ [LF]
     @ ''image: flag.png'' @ [LF] @ ''plural_count: 2'' @ [LF]
     @ ''plural_definition: n == 1 ? 0 : 1'' @ [LF] @ ''translator: Z'' @ [LF]"

section \<open>Properties of the collection\<close>

lemma addItem_transUnique: "transUnique (addItem k l) = insert k (transUnique l)"
  by (auto simp: addItem_def Let_def split: option.splits)

lemma addItem_pluralUnique: "pluralUnique (addItem k l) = pluralUnique l"
  by (auto simp: addItem_def Let_def split: option.splits)

lemma addItemPlural_pluralUnique: "pluralUnique (addItemPlural k l) = insert k (pluralUnique l)"
  by (auto simp: addItemPlural_def Let_def split: option.splits)

lemma addItemPlural_transUnique: "transUnique (addItemPlural k l) = transUnique l"
  by (auto simp: addItemPlural_def Let_def split: option.splits)

lemma addKeys_transUniquemono: "k \<in> transUnique l \<Longrightarrow> k \<in> transUnique (addKeys ks l)"
proof (induction ks arbitrary: l)
  case Nil
  then show ?case by simp
next
  case (Cons a ks)
  have "k \<in> transUnique (addKey a l)"
    using Cons.prems by (cases a) (simp_all add: addItem_transUnique addItemPlural_transUnique)
  then show ?case using Cons.IH by simp
qed

lemma addKeys_pluralUniquemono: "k \<in> pluralUnique l \<Longrightarrow> k \<in> pluralUnique (addKeys ks l)"
proof (induction ks arbitrary: l)
  case Nil
  then show ?case by simp
next
  case (Cons a ks)
  have "k \<in> pluralUnique (addKey a l)"
    using Cons.prems by (cases a) (simp_all add: addItem_pluralUnique addItemPlural_pluralUnique)
  then show ?case using Cons.IH by simp
qed

lemma addItem_first:
  "k \<notin> transUnique l \<Longrightarrow>
     sequence (addItem k l) = sequence l @ [SingularItem (k, seedOf (transOld l) k)]"
  by (auto simp: addItem_def Let_def seedOf_def split: option.splits)

lemma addItemPlural_first:
  "k \<notin> pluralUnique l \<Longrightarrow>
     sequence (addItemPlural k l) = sequence l @ [PluralItem (k, seedOf (transPluralOld l) k)]"
  by (auto simp: addItemPlural_def Let_def seedOf_def split: option.splits)

text \<open>C6. Adding a key is idempotent. The first call for a key (one not yet in the
  uniqueness set) appends exactly one item, whose translation is the prior map's (empty
  when the key is absent there or its prior translation is empty); a call for a key that
  was added before, whatever other keys were added in between, changes nothing.\<close>

theorem addItem_idempotent:
  "(k \<notin> transUnique l \<longrightarrow>
      sequence (addItem k l) = sequence l @ [SingularItem (k, seedOf (transOld l) k)])
   \<and> addItem k (addKeys ks (addItem k l)) = addKeys ks (addItem k l)
   \<and> (p \<notin> pluralUnique l \<longrightarrow>
      sequence (addItemPlural p l) = sequence l @ [PluralItem (p, seedOf (transPluralOld l) p)])
   \<and> addItemPlural p (addKeys ks (addItemPlural p l)) = addKeys ks (addItemPlural p l)"
proof -
  have "k \<in> transUnique (addKeys ks (addItem k l))"
    by (rule addKeys_transUniquemono) (simp add: addItem_transUnique)
  then have a: "addItem k (addKeys ks (addItem k l)) = addKeys ks (addItem k l)"
    by (simp add: addItem_def)
  have "p \<in> pluralUnique (addKeys ks (addItemPlural p l))"
    by (rule addKeys_pluralUniquemono) (simp add: addItemPlural_pluralUnique)
  then have b: "addItemPlural p (addKeys ks (addItemPlural p l)) = addKeys ks (addItemPlural p l)"
    by (simp add: addItemPlural_def)
  show ?thesis using a b addItem_first addItemPlural_first by blast
qed

theorem addItem_idempotent_witness:
  "''Save'' \<notin> transUnique (newList [''Save'' \<mapsto> ''Speichern''] Map.empty)
   \<and> sequence (addItem ''Save'' (newList [''Save'' \<mapsto> ''Speichern''] Map.empty))
       = [SingularItem (''Save'', ''Speichern'')]
   \<and> addItem ''Save'' (addKeys [SingularKey ''Open'']
         (addItem ''Save'' (newList [''Save'' \<mapsto> ''Speichern''] Map.empty)))
       = addKeys [SingularKey ''Open'']
           (addItem ''Save'' (newList [''Save'' \<mapsto> ''Speichern''] Map.empty))
   \<and> (''1 file'', ''%x files'') \<notin> pluralUnique (newList [''Save'' \<mapsto> ''Speichern''] Map.empty)
   \<and> sequence (addItemPlural (''1 file'', ''%x files'')
         (newList [''Save'' \<mapsto> ''Speichern''] Map.empty))
       = [PluralItem ((''1 file'', ''%x files''), [])]"
  using addItem_idempotent [of "''Save''" "newList [''Save'' \<mapsto> ''Speichern''] Map.empty"
      "[SingularKey ''Open'']" "(''1 file'', ''%x files'')"]
  by (simp add: newList_def seedOf_def)

section \<open>Properties of validation\<close>

lemma firstError_None_iff: "firstError f xs = None \<longleftrightarrow> (\<forall>x \<in> set xs. f x = None)"
  by (induction xs) (auto split: option.splits)

lemma firstError_Some_mem: "x \<in> set xs \<Longrightarrow> f x = Some m \<Longrightarrow> \<exists>m'. firstError f xs = Some m'"
  by (induction xs) (auto split: option.splits)

lemma validateTranslationPlural_result:
  "validateTranslationPlural Z s pluralInfo original translation =
     (case firstError (\<lambda>c. c) (pluralChecks Z pluralInfo original translation) of
        Some m \<Rightarrow> Inl (errorAt s m) | None \<Rightarrow> Inr ())"
  by (simp add: validateTranslationPlural_def)

lemma slotCheck_in_pluralChecks:
  "translation \<noteq> [] \<Longrightarrow>
     firstError (slotCheck pluralInfo original translation) [0 ..< length translation]
       \<in> set (pluralChecks Z pluralInfo original translation)"
  unfolding pluralChecks_def Let_def
  by (simp only: if_True set_append Un_iff list.set insert_iff simp_thms)

text \<open>C4. The plural check of the not-to-be-translated texts does not use the list of
  the singular check: \<^verbatim>\<open>ffs_real\<close> is missing from it. A plural entry whose two originals
  contain \<^verbatim>\<open>ffs_real\<close> and whose forms do not is accepted, where the singular check rejects
  the same omission.\<close>

theorem plural_allow_list_misses_ffs_real:
  "validateTranslationPlural sampleExternals s englishPlural
     (''1 ffs_real file'', ''%x ffs_real files'') [''1 Datei'', ''%x Dateien''] = Inr ()
   \<and> validateTranslation sampleExternals s ''ffs_real file'' ''Datei''
     = Inl (errorAt s (''Misspelled '' @ [CHR 0x22] @ ''ffs_real'' @ [CHR 0x22] @ '' in translation''))
   \<and> validateTranslationPlural sampleExternals s englishPlural
     (''1 ffs_tmp file'', ''%x ffs_tmp files'') [''1 Datei'', ''%x Dateien'']
     = Inl (errorAt s (''Misspelled '' @ [CHR 0x22] @ ''ffs_tmp'' @ [CHR 0x22] @ '' in translation''))"
  by code_simp

text \<open>C7. For a plural entry with a non-empty list of forms and a slot \<open>i\<close> of that list:
  when the evaluator marks the slot single-number, the original singular contains \<^verbatim>\<open>%x\<close>
  or \<^verbatim>\<open>1\<close>, and the form at the slot contains neither \<^verbatim>\<open>%x\<close> nor the decimal rendering
  of the slot's representative value, validation raises an error located at the scanner's
  position; and so it does when the slot is not marked single-number and its form does not
  contain \<^verbatim>\<open>%x\<close>.\<close>

theorem plural_slot_rule:
  assumes "translation \<noteq> []" and "i < length translation"
    and "if isSingleNumberForm pluralInfo i
         then (contains (fst original) ''%x'' \<or> contains (fst original) ''1'')
              \<and> \<not> (contains (translation ! i) ''%x''
                     \<or> contains (translation ! i) (numberTo (getFirstNumber pluralInfo i)))
         else \<not> contains (translation ! i) ''%x''"
  shows "\<exists>m. validateTranslationPlural Z s pluralInfo original translation = Inl (errorAt s m)"
proof -
  have "\<exists>m. slotCheck pluralInfo original translation i = Some m"
  proof (cases "isSingleNumberForm pluralInfo i")
    case True
    then show ?thesis using assms(3) by (simp add: slotCheck_def throwIf_def Let_def)
  next
    case False
    then show ?thesis using assms(3) by (simp add: slotCheck_def throwIf_def)
  qed
  then obtain m where m: "slotCheck pluralInfo original translation i = Some m" ..
  have i: "i \<in> set [0 ..< length translation]" using assms(2) by simp
  obtain m' where
    m': "firstError (slotCheck pluralInfo original translation) [0 ..< length translation] = Some m'"
    using firstError_Some_mem
      [of i "[0 ..< length translation]" "slotCheck pluralInfo original translation" m, OF i m]
    by blast
  have mem: "firstError (slotCheck pluralInfo original translation) [0 ..< length translation]
       \<in> set (pluralChecks Z pluralInfo original translation)"
    using assms(1) by (rule slotCheck_in_pluralChecks)
  obtain m'' where
    "firstError (\<lambda>c. c) (pluralChecks Z pluralInfo original translation) = Some m''"
    using firstError_Some_mem
      [of "firstError (slotCheck pluralInfo original translation) [0 ..< length translation]"
          "pluralChecks Z pluralInfo original translation" "\<lambda>c. c" m', OF mem m']
    by blast
  then have "validateTranslationPlural Z s pluralInfo original translation = Inl (errorAt s m'')"
    by (simp add: validateTranslationPlural_result)
  then show ?thesis by blast
qed

theorem plural_slot_rule_witness:
  "[''un fichier'', ''%x fichiers''] \<noteq> [] \<and> (0::nat) < length [''un fichier'', ''%x fichiers'']
   \<and> (if isSingleNumberForm englishPlural 0
        then (contains (fst (''1 file'', ''%x files'')) ''%x'' \<or> contains (fst (''1 file'', ''%x files'')) ''1'')
              \<and> \<not> (contains ([''un fichier'', ''%x fichiers''] ! 0) ''%x''
                     \<or> contains ([''un fichier'', ''%x fichiers''] ! 0) (numberTo (getFirstNumber englishPlural 0)))
         else \<not> contains ([''un fichier'', ''%x fichiers''] ! 0) ''%x'')
   \<and> (\<exists>m. validateTranslationPlural sampleExternals (newScanner []) englishPlural
          (''1 file'', ''%x files'') [''un fichier'', ''%x fichiers''] = Inl (errorAt (newScanner []) m))"
proof -
  have h1: "[''un fichier'', ''%x fichiers''] \<noteq> []" by simp
  have h2: "(0::nat) < length [''un fichier'', ''%x fichiers'']" by simp
  have h3: "if isSingleNumberForm englishPlural 0
        then (contains (fst (''1 file'', ''%x files'')) ''%x'' \<or> contains (fst (''1 file'', ''%x files'')) ''1'')
              \<and> \<not> (contains ([''un fichier'', ''%x fichiers''] ! 0) ''%x''
                     \<or> contains ([''un fichier'', ''%x fichiers''] ! 0) (numberTo (getFirstNumber englishPlural 0)))
         else \<not> contains ([''un fichier'', ''%x fichiers''] ! 0) ''%x''"
    by code_simp
  show ?thesis using plural_slot_rule [OF h1 h2 h3] h1 h2 h3 by blast
qed

text \<open>The examples of the specification for the plural pair \<^verbatim>\<open>1 file\<close>, \<^verbatim>\<open>%x files\<close>.\<close>

lemma plural_example_passes:
  "validateTranslationPlural sampleExternals s englishPlural
     (''1 file'', ''%x files'') [''1 fichier'', ''%x fichiers''] = Inr ()"
  by code_simp

lemma plural_example_form_count:
  "validateTranslationPlural sampleExternals s englishPlural
     (''1 file'', ''%x files'') [''%x fichiers'']
   = Inl (errorAt s ''Invalid number of plural forms; actual: 1, expected: 2'')"
  by code_simp

section \<open>The row of the scanner\<close>







text \<open>The rows that errors report: with mixed conventions, and for a token in hand that
  spans lines (the text token starts on row 0, the error has row 3).\<close>

lemma error_row_mixed:
  "parseHeader Z (''x'' @ [LF] @ ''y'' @ [CR] @ ''z'')
     = Inl \<lparr>msg = ''Unexpected token'', row = 1, col = 1\<rparr>"
  by code_simp

lemma error_row_after_token:
  "parseHeader Z (''x'' @ [LF, LF, LF] @ ''<source>'')
     = Inl \<lparr>msg = ''Unexpected token'', row = 3, col = 0\<rparr>"
  by code_simp

lemma error_row_example:
  "parseHeader Z (''<header>'' @ [LF] @ ''a'' @ [LF] @ ''<source>'')
     = Inl \<lparr>msg = ''Cannot find header item '' @ [CHR 0x22] @ ''language:'' @ [CHR 0x22],
            row = 2, col = 8\<rparr>"
  by code_simp

section \<open>The header\<close>

lemma consumeToken_Inr:
  "ttype (tk p) = t \<Longrightarrow> consumeToken t p = Inr (nextToken p)"
  by (simp add: consumeToken_def expectToken_def)

lemma consumeToken_Inl:
  "ttype (tk p) \<noteq> t \<Longrightarrow> consumeToken t p = Inl (errorAt (scn p) ''Unexpected token'')"
  by (simp add: consumeToken_def expectToken_def)

lemma missingItemMsg_requiredKeys:
  "map missingItemMsg requiredKeys
     = map (\<lambda>k. ''Cannot find header item '' @ [CHR 0x22] @ k @ '':'' @ [CHR 0x22]) requiredKeys"
  by code_simp

lemma missingItemMsg_distinct: "distinct (map missingItemMsg requiredKeys)"
  by code_simp

lemma parseHeaderM_tokens:
  assumes "ttype (tk p) = TkHeader" and "ttype (tk (nextToken p)) = TkText"
  shows "parseHeaderM Z header p =
     (let items = headerItems (ttext (tk (nextToken p)));
          s = scn (nextToken (nextToken p)) in
      case getValue items s ''language'' of Inl e \<Rightarrow> Inl (e, header) | Inr v1 \<Rightarrow>
      let h1 = header\<lparr>languageName := v1\<rparr> in
      case getValue items s ''locale'' of Inl e \<Rightarrow> Inl (e, h1) | Inr v2 \<Rightarrow>
      let h2 = h1\<lparr>localeCode := v2\<rparr> in
      case getValue items s ''image'' of Inl e \<Rightarrow> Inl (e, h2) | Inr v3 \<Rightarrow>
      let h3 = h2\<lparr>flagFile := v3\<rparr> in
      case getValue items s ''plural_count'' of Inl e \<Rightarrow> Inl (e, h3) | Inr v4 \<Rightarrow>
      let h4 = h3\<lparr>pluralCount := stringToInt Z v4\<rparr> in
      case getValue items s ''plural_definition'' of Inl e \<Rightarrow> Inl (e, h4) | Inr v5 \<Rightarrow>
      let h5 = h4\<lparr>pluralDefinition := v5\<rparr> in
      case getValue items s ''translator'' of Inl e \<Rightarrow> Inl (e, h5) | Inr v6 \<Rightarrow>
      Inr (h5\<lparr>translatorName := v6\<rparr>, nextToken (nextToken p)))"
  unfolding parseHeaderM_def
  by (simp only: consumeToken_Inr [OF assms(1)] consumeToken_Inr [OF assms(2)] sum.case Let_def)

text \<open>C3, amended. When the stream starts with the header tag and a text, \<^verbatim>\<open>parseHeader\<close>
  raises \<^verbatim>\<open>Cannot find header item "<key>:"\<close> for the first of the six required keys, in
  the order language, locale, image, plural_count, plural_definition, translator, that
  the header text lacks; the six messages are distinct. When no key is missing it returns
  the header and raises nothing: \<^verbatim>\<open>pluralCount\<close> is whatever the conversion to \<^verbatim>\<open>int\<close> makes
  of the value, for every conversion.\<close>

theorem parseHeader_errors:
  assumes "ttype (tk (newLngParser byteStream)) = TkHeader"
    and "ttype (tk (nextToken (newLngParser byteStream))) = TkText"
  shows "parseHeader Z byteStream =
     (let items = headerItems (ttext (tk (nextToken (newLngParser byteStream)))) in
      case find (\<lambda>k. items k = None) requiredKeys of
        Some k \<Rightarrow>
          Inl (errorAt (scn (nextToken (nextToken (newLngParser byteStream))))
                 (''Cannot find header item '' @ [CHR 0x22] @ k @ '':'' @ [CHR 0x22]))
      | None \<Rightarrow>
          Inr \<lparr>languageName = the (items ''language''),
               translatorName = the (items ''translator''),
               localeCode = the (items ''locale''),
               flagFile = the (items ''image''),
               pluralCount = stringToInt Z (the (items ''plural_count'')),
               pluralDefinition = the (items ''plural_definition'')\<rparr>)
     \<and> distinct (map missingItemMsg requiredKeys)"
proof -
  have m: "missingItemMsg ''language'' = ''Cannot find header item '' @ [CHR 0x22] @ ''language'' @ '':'' @ [CHR 0x22]"
    "missingItemMsg ''locale'' = ''Cannot find header item '' @ [CHR 0x22] @ ''locale'' @ '':'' @ [CHR 0x22]"
    "missingItemMsg ''image'' = ''Cannot find header item '' @ [CHR 0x22] @ ''image'' @ '':'' @ [CHR 0x22]"
    "missingItemMsg ''plural_count'' = ''Cannot find header item '' @ [CHR 0x22] @ ''plural_count'' @ '':'' @ [CHR 0x22]"
    "missingItemMsg ''plural_definition'' = ''Cannot find header item '' @ [CHR 0x22] @ ''plural_definition'' @ '':'' @ [CHR 0x22]"
    "missingItemMsg ''translator'' = ''Cannot find header item '' @ [CHR 0x22] @ ''translator'' @ '':'' @ [CHR 0x22]"
    by code_simp+
  have "parseHeader Z byteStream =
     (let items = headerItems (ttext (tk (nextToken (newLngParser byteStream)))) in
      case find (\<lambda>k. items k = None) requiredKeys of
        Some k \<Rightarrow>
          Inl (errorAt (scn (nextToken (nextToken (newLngParser byteStream))))
                 (''Cannot find header item '' @ [CHR 0x22] @ k @ '':'' @ [CHR 0x22]))
      | None \<Rightarrow>
          Inr \<lparr>languageName = the (items ''language''),
               translatorName = the (items ''translator''),
               localeCode = the (items ''locale''),
               flagFile = the (items ''image''),
               pluralCount = stringToInt Z (the (items ''plural_count'')),
               pluralDefinition = the (items ''plural_definition'')\<rparr>)"
    unfolding parseHeader_def parseHeaderM_tokens [OF assms] Let_def getValue_def requiredKeys_def m
    by (simp add: defaultHeader_def split: option.split)
  then show ?thesis using missingItemMsg_distinct by blast
qed

theorem parseHeader_errors_witness:
  "ttype (tk (newLngParser (''<header>'' @ [LF] @ ''language: English'' @ [LF] @ ''locale: en''
       @ [LF] @ ''plural_count: 2''))) = TkHeader
   \<and> ttype (tk (nextToken (newLngParser (''<header>'' @ [LF] @ ''language: English'' @ [LF]
       @ ''locale: en'' @ [LF] @ ''plural_count: 2'')))) = TkText
   \<and> parseHeader sampleExternals (''<header>'' @ [LF] @ ''language: English'' @ [LF] @ ''locale: en''
       @ [LF] @ ''plural_count: 2'')
     = Inl \<lparr>msg = ''Cannot find header item '' @ [CHR 0x22] @ ''image:'' @ [CHR 0x22],
            row = 3, col = 15\<rparr>"
proof -
  let ?s = "''<header>'' @ [LF] @ ''language: English'' @ [LF] @ ''locale: en''
       @ [LF] @ ''plural_count: 2''"
  have h1: "ttype (tk (newLngParser ?s)) = TkHeader" by code_simp
  have h2: "ttype (tk (nextToken (newLngParser ?s))) = TkText" by code_simp
  have e: "(let items = headerItems (ttext (tk (nextToken (newLngParser ?s)))) in
      case find (\<lambda>k. items k = None) requiredKeys of
        Some k \<Rightarrow>
          Inl (errorAt (scn (nextToken (nextToken (newLngParser ?s))))
                 (''Cannot find header item '' @ [CHR 0x22] @ k @ '':'' @ [CHR 0x22]))
      | None \<Rightarrow>
          Inr \<lparr>languageName = the (items ''language''),
               translatorName = the (items ''translator''),
               localeCode = the (items ''locale''),
               flagFile = the (items ''image''),
               pluralCount = stringToInt sampleExternals (the (items ''plural_count'')),
               pluralDefinition = the (items ''plural_definition'')\<rparr>)
     = Inl \<lparr>msg = ''Cannot find header item '' @ [CHR 0x22] @ ''image:'' @ [CHR 0x22],
            row = 3, col = 15\<rparr>"
    by code_simp
  show ?thesis using parseHeader_errors [OF h1 h2, of sampleExternals] e h1 h2 by simp
qed

text \<open>C3, as stated, fails for a value of \<^verbatim>\<open>plural_count\<close> that is not an integer: the
  header is returned, with the count the conversion gives.\<close>

theorem parseHeader_bad_integer_counterexample:
  "parseHeader sampleExternals
     (''<header>'' @ [LF] @ ''language: English'' @ [LF] @ ''locale: en'' @ [LF]
      @ ''image: flag.png'' @ [LF] @ ''plural_count: two'' @ [LF]
      @ ''plural_definition: n == 1 ? 0 : 1'' @ [LF] @ ''translator: Z'')
   = Inr \<lparr>languageName = ''English'', translatorName = ''Z'', localeCode = ''en'',
          flagFile = ''flag.png'', pluralCount = 0, pluralDefinition = ''n == 1 ? 0 : 1''\<rparr>"
  by code_simp



section \<open>Text tokens are never empty\<close>

lemma replaceCpy_Nil_iff: "new \<noteq> [] \<Longrightarrow> replaceCpy s old new = [] \<longleftrightarrow> s = []"
  by (subst replaceCpy.simps) auto

lemma trim_nonempty: "\<not> isWhiteSpace c \<Longrightarrow> trim (c # xs) \<noteq> []"
  by (auto simp: trim_def dropWhile_append)

lemma normalize_nonempty: "\<not> isWhiteSpace c \<Longrightarrow> normalize (c # xs) \<noteq> []"
  by (simp add: normalize_def replaceCpy_Nil_iff trim_nonempty)

lemma scan_text_nonempty:
  assumes "scan r = (t, r')" "ttype t = TkText"
  shows "ttext t \<noteq> []"
proof -
  let ?r1 = "dropWhile isWhiteSpace r"
  have ne: "?r1 \<noteq> []"
  proof
    assume "?r1 = []"
    then have "scan r = (mkToken TkEnd, [])" by (rule scan_end)
    then show False using assms by (simp add: mkToken_def)
  qed
  then obtain c cs where r1: "?r1 = c # cs" by (cases ?r1) auto
  have c: "\<not> isWhiteSpace c" using hd_dropWhile [OF ne] r1 by simp
  show ?thesis
  proof (cases "find (\<lambda>p. startsWith ?r1 (snd p)) knownTokens")
    case (Some ab)
    obtain a b where ab: "ab = (a, b)" by (cases ab)
    have "a \<noteq> TkText" using Some ab by (auto simp: knownTokens_def split: if_splits)
    then show ?thesis using assms scan_tag [OF ne Some [unfolded ab]] by (auto simp: mkToken_def)
  next
    case None
    then have "\<not> startsWithKnownTag ?r1" by (rule find_knownTokens_None)
    then have "length (textRest ?r1) < length ?r1" using ne by (simp add: textRest_shorter)
    then obtain n where n: "length ?r1 - length (textRest ?r1) = Suc n"
      by (cases "length ?r1 - length (textRest ?r1)") auto
    have "take (length ?r1 - length (textRest ?r1)) ?r1 = take (Suc n) ?r1"
      by (simp only: n)
    also have "\<dots> = c # take n cs" by (simp add: r1)
    finally have "normalize (take (length ?r1 - length (textRest ?r1)) ?r1) \<noteq> []"
      using c by (simp add: normalize_nonempty)
    then show ?thesis using assms scan_text [OF ne None] by (auto simp: mkToken_def split: if_splits)
  qed
qed

lemma nextToken_text_nonempty:
  "ttype (tk (nextToken p)) = TkText \<Longrightarrow> ttext (tk (nextToken p)) \<noteq> []"
proof -
  assume a: "ttype (tk (nextToken p)) = TkText"
  obtain t r where sc: "scan (drop (pos (scn p)) (stream (scn p))) = (t, r)" by fastforce
  have "tk (nextToken p) = t" using sc by (simp add: nextToken_def getNextToken_def)
  then show ?thesis using a scan_text_nonempty [OF sc] by simp
qed

lemma okc_throwIf: "m \<noteq> emptyMsg \<Longrightarrow> okc (throwIf b m)"
  by (simp add: okc_def throwIf_def)

lemma okc_firstError: "(\<And>x. x \<in> set xs \<Longrightarrow> okc (f x)) \<Longrightarrow> okc (firstError f xs)"
  by (induction xs) (auto simp: okc_def split: option.splits)

lemma okc_None: "okc None"
  by (simp add: okc_def)

lemma okc_if: "okc a \<Longrightarrow> okc b \<Longrightarrow> okc (if c then a else b)"
  by simp

lemma replaceCpy_keeps_head:
  assumes "old \<noteq> []" "c \<noteq> hd old"
  shows "replaceCpy (c # s) old new = c # replaceCpy s old new"
proof -
  have "\<not> startsWith (c # s) old"
    using assms by (cases old) (auto simp: startsWith_def)
  then show ?thesis using assms by (subst replaceCpy.simps) simp
qed

lemma msg_neq_by_head: "c \<noteq> CHR ''T'' \<Longrightarrow> c # s \<noteq> emptyMsg"
  by (simp add: emptyMsg_def)

lemma fixed_msgs:
  "''Translation source text contains UTF-8 encoding error'' \<noteq> emptyMsg"
  "''Translation text contains UTF-8 encoding error'' \<noteq> emptyMsg"
  "''Text contains UTF-8 encoding error'' \<noteq> emptyMsg"
  "''Plural form source text does not contain %x placeholder'' \<noteq> emptyMsg"
  "''Source text is a one-liner, but translation consists of multiple lines'' \<noteq> emptyMsg"
  "''Source text is a one-liner, but at least one plural form translation consists of multiple lines'' \<noteq> emptyMsg"
  "msgAmpCount \<noteq> emptyMsg" "msgAmpEnd \<noteq> emptyMsg" "msgColon \<noteq> emptyMsg"
  "msgDot \<noteq> emptyMsg" "msgEllipsis \<noteq> emptyMsg"
  "''Unexpected token'' \<noteq> emptyMsg" "''Invalid plural form definition'' \<noteq> emptyMsg"
  by (simp_all add: emptyMsg_def msgAmpCount_def msgAmpEnd_def msgColon_def msgDot_def msgEllipsis_def)

lemma list_msgs:
  "list_all (\<lambda>f. msgMisspelled f \<noteq> emptyMsg) fixedStrings"
  "list_all (\<lambda>f. msgMisspelled f \<noteq> emptyMsg) fixedStringsPlural"
  "list_all (\<lambda>c. msgSpaceBefore c \<noteq> emptyMsg) ''.!?:;$#''"
  "list_all (\<lambda>p. replaceCpy ''Placeholder %x missing in translation'' ''%x'' p \<noteq> emptyMsg) [''%x'', ''%y'', ''%z'']"
  "replaceCpy ''Placeholder %x missing in text'' ''%x'' ''%y'' \<noteq> emptyMsg"
  "replaceCpy ''Placeholder %x missing in text'' ''%x'' ''%z'' \<noteq> emptyMsg"
  "list_all (\<lambda>k. missingItemMsg k \<noteq> emptyMsg) requiredKeys"
  by code_simp+

lemma number_msgs:
  "replaceCpy (replaceCpy ''Invalid number of plural forms; actual: %x, expected: %y'' ''%x'' a) ''%y'' b \<noteq> emptyMsg"
  "replaceCpy ''Duplicate plural form translation at index position %x'' ''%x'' a \<noteq> emptyMsg"
  "replaceCpy (replaceCpy ''Plural form translation at index position %y needs to use the decimal number %z or the %x placeholder'' ''%y'' a) ''%z'' b \<noteq> emptyMsg"
  "replaceCpy ''Plural form at index position %y is missing the %x placeholder'' ''%y'' a \<noteq> emptyMsg"
  by (simp_all add: replaceCpy_keeps_head msg_neq_by_head)

lemma okc_duplicateCheck: "okc (duplicateCheck ts i)"
  by (induction ts i rule: duplicateCheck.induct) (simp_all add: okc_def number_msgs)

lemma okc_slotCheck: "okc (slotCheck pluralInfo original translation i)"
  by (simp add: slotCheck_def Let_def okc_throwIf okc_None number_msgs)

lemma okc_checkSecondaryPlaceholder_y: "okc (checkSecondaryPlaceholder original allTexts ''%y'')"
  unfolding checkSecondaryPlaceholder_def
  by (intro okc_if okc_firstError okc_throwIf okc_None list_msgs)

lemma okc_checkSecondaryPlaceholder_z: "okc (checkSecondaryPlaceholder original allTexts ''%z'')"
  unfolding checkSecondaryPlaceholder_def
  by (intro okc_if okc_firstError okc_throwIf okc_None list_msgs)

lemma list_all_memD: "list_all P xs \<Longrightarrow> x \<in> set xs \<Longrightarrow> P x"
  by (simp add: list_all_iff)

lemmas msg_mem =
  list_all_memD [OF list_msgs(1)] list_all_memD [OF list_msgs(3)] list_all_memD [OF list_msgs(4)]

lemma la_Cons: "okc a \<Longrightarrow> list_all okc xs \<Longrightarrow> list_all okc (a # xs)"
  by simp

lemma la_Nil: "list_all okc []"
  by simp

lemma la_append: "list_all okc xs \<Longrightarrow> list_all okc ys \<Longrightarrow> list_all okc (xs @ ys)"
  by simp

lemma la_if: "list_all okc xs \<Longrightarrow> list_all okc ys \<Longrightarrow> list_all okc (if c then xs else ys)"
  by simp

lemma okc_throwIf_not: "\<not> b \<Longrightarrow> okc (throwIf b m)"
  by (simp add: throwIf_def okc_def)

lemma singularChecks_okc:
  assumes "original \<noteq> []"
  shows "list_all okc (singularChecks Z original translation)"
  unfolding singularChecks_def Let_def
  apply (rule la_append)
   apply (rule la_Cons)
    apply (rule okc_throwIf_not)
    apply (simp add: assms)
   apply (intro la_Cons la_Nil okc_throwIf fixed_msgs)
  apply (rule la_if)
   apply (intro la_Cons la_Nil okc_throwIf okc_firstError fixed_msgs msg_mem)
     apply assumption+
  apply (rule la_Nil)
  done

lemma pluralChecks_okc:
  assumes "fst original \<noteq> []" "snd original \<noteq> []"
  shows "list_all okc (pluralChecks Z pluralInfo original translation)"
  unfolding pluralChecks_def Let_def
  apply (rule la_append)
   apply (rule la_Cons)
    apply (rule okc_throwIf_not)
    apply (simp add: assms)
   apply (intro la_Cons la_Nil okc_throwIf okc_firstError fixed_msgs)
  apply (rule la_if)
   apply (intro la_Cons la_Nil okc_throwIf okc_firstError okc_if okc_None fixed_msgs number_msgs
      list_all_memD [OF list_msgs(2)] list_all_memD [OF list_msgs(3)]
      okc_duplicateCheck okc_slotCheck okc_checkSecondaryPlaceholder_y okc_checkSecondaryPlaceholder_z)
     apply assumption+
  apply (rule la_Nil)
  done


lemma firstError_okc:
  "list_all okc cs \<Longrightarrow> firstError (\<lambda>c. c) cs = Some m \<Longrightarrow> m \<noteq> emptyMsg"
  by (induction cs) (auto simp: okc_def split: option.splits)

lemma validateTranslation_msg:
  assumes "original \<noteq> []" "validateTranslation Z s original translation = Inl e"
  shows "msg e \<noteq> emptyMsg"
proof -
  obtain m where m: "firstError (\<lambda>c. c) (singularChecks Z original translation) = Some m"
    and e: "e = errorAt s m"
    using assms(2) by (auto simp: validateTranslation_def split: option.splits)
  have "m \<noteq> emptyMsg" using firstError_okc [OF singularChecks_okc [OF assms(1)] m] .
  then show ?thesis by (simp add: e errorAt_def)
qed

lemma validateTranslationPlural_msg:
  assumes "fst original \<noteq> []" "snd original \<noteq> []"
    "validateTranslationPlural Z s pluralInfo original translation = Inl e"
  shows "msg e \<noteq> emptyMsg"
proof -
  obtain m where m: "firstError (\<lambda>c. c) (pluralChecks Z pluralInfo original translation) = Some m"
    and e: "e = errorAt s m"
    using assms(3) by (auto simp: validateTranslationPlural_def split: option.splits)
  have "m \<noteq> emptyMsg" using firstError_okc [OF pluralChecks_okc [OF assms(1,2)] m] .
  then show ?thesis by (simp add: e errorAt_def)
qed

lemma consumeToken_msg: "consumeToken t p = Inl e \<Longrightarrow> msg e \<noteq> emptyMsg"
  by (auto simp: consumeToken_def expectToken_def errorAt_def fixed_msgs split: if_splits)

lemma consumeToken_text_nonempty:
  "consumeToken t p = Inr p1 \<Longrightarrow> consumeToken TkText p1 = Inr p2 \<Longrightarrow> ttext (tk p1) \<noteq> []"
proof -
  assume a: "consumeToken t p = Inr p1" "consumeToken TkText p1 = Inr p2"
  have "p1 = nextToken p" using a(1) by (auto simp: consumeToken_def expectToken_def split: if_splits)
  moreover have "ttype (tk p1) = TkText"
    using a(2) by (auto simp: consumeToken_def expectToken_def split: if_splits)
  ultimately show ?thesis using nextToken_text_nonempty by blast
qed

lemma pluralFormsLoop_msg: "pluralFormsLoop p acc = Inl e \<Longrightarrow> msg e \<noteq> emptyMsg"
proof (induction p acc rule: pluralFormsLoop.induct)
  case (1 p pluralList)
  show ?case
  proof (cases "ttype (tk p) = TkPlural")
    case False
    then show ?thesis using "1.prems" by (subst (asm) pluralFormsLoop.simps) simp
  next
    case True
    show ?thesis
    proof (cases "consumeToken TkText (nextToken p)")
      case (Inl e')
      then have "e = e'" using "1.prems" True
        by (subst (asm) pluralFormsLoop.simps) (simp add: Let_def)
      then show ?thesis using Inl consumeToken_msg by blast
    next
      case (Inr p2)
      then have "pluralFormsLoop p2 (pluralList @ [ttext (tk (nextToken p))]) = Inl e"
        using "1.prems" True by (subst (asm) pluralFormsLoop.simps) (simp add: Let_def)
      then show ?thesis using "1.IH" True Inr by simp
    qed
  qed
qed

lemma parsePlural_msg:
  assumes "parsePlural Z pluralInfo pluralOut p = Inl e"
  shows "msg e \<noteq> emptyMsg"
proof (cases "consumeToken TkPlural p")
  case (Inl e1) then show ?thesis using assms consumeToken_msg by (auto simp: parsePlural_def)
next
  case c1: (Inr p1)
  show ?thesis
  proof (cases "consumeToken TkText p1")
    case (Inl e2) then show ?thesis using assms c1 consumeToken_msg by (auto simp: parsePlural_def Let_def)
  next
    case c2: (Inr p2)
    have n1: "ttext (tk p1) \<noteq> []" using c1 c2 by (rule consumeToken_text_nonempty)
    show ?thesis
    proof (cases "consumeToken TkPlural p2")
      case (Inl e3) then show ?thesis using assms c1 c2 consumeToken_msg by (auto simp: parsePlural_def Let_def)
    next
      case c3: (Inr p3)
      show ?thesis
      proof (cases "consumeToken TkText p3")
        case (Inl e4) then show ?thesis using assms c1 c2 c3 consumeToken_msg by (auto simp: parsePlural_def Let_def)
      next
        case c4: (Inr p4)
        have n2: "ttext (tk p3) \<noteq> []" using c3 c4 by (rule consumeToken_text_nonempty)
        show ?thesis
        proof (cases "consumeToken TkTarget p4")
          case (Inl e5) then show ?thesis using assms c1 c2 c3 c4 consumeToken_msg by (auto simp: parsePlural_def Let_def)
        next
          case c5: (Inr p5)
          show ?thesis
          proof (cases "pluralFormsLoop p5 []")
            case (Inl e6) then show ?thesis using assms c1 c2 c3 c4 c5 pluralFormsLoop_msg by (auto simp: parsePlural_def Let_def)
          next
            case (Inr res)
            obtain pluralList p6 where c6: "pluralFormsLoop p5 [] = Inr (pluralList, p6)"
              using Inr by (cases res) auto
            show ?thesis
            proof (cases "if pluralList = [] then consumeToken TkEmpty p6 else Inr p6")
              case (Inl e7)
              then have "consumeToken TkEmpty p6 = Inl e7" by (auto split: if_splits)
              moreover have "e = e7" using assms c1 c2 c3 c4 c5 c6 Inl by (simp add: parsePlural_def Let_def)
              ultimately show ?thesis using consumeToken_msg by blast
            next
              case c7: (Inr p7)
              have "validateTranslationPlural Z (scn p7) pluralInfo (ttext (tk p1), ttext (tk p3)) pluralList = Inl e"
                using assms c1 c2 c3 c4 c5 c6 c7 by (simp add: parsePlural_def Let_def split: sum.splits)
              then show ?thesis using validateTranslationPlural_msg n1 n2 by (metis fst_conv snd_conv)
            qed
          qed
        qed
      qed
    qed
  qed
qed

lemma readTranslation_msg: "readTranslation p = Inl e \<Longrightarrow> msg e \<noteq> emptyMsg"
  using consumeToken_msg [of TkEmpty p e]
  by (auto simp: readTranslation_def split: if_splits sum.splits)

lemma parseRegular_msg:
  assumes "parseRegular Z pluralInfo out pluralOut p = Inl e"
  shows "msg e \<noteq> emptyMsg"
proof (cases "consumeToken TkSource p")
  case (Inl e1) then show ?thesis using assms consumeToken_msg by (auto simp: parseRegular_def)
next
  case c1: (Inr p1)
  show ?thesis
  proof (cases "ttype (tk p1) = TkPlural")
    case True
    then have "parsePlural Z pluralInfo pluralOut p1 = Inl e"
      using assms c1 by (auto simp: parseRegular_def split: sum.splits)
    then show ?thesis by (rule parsePlural_msg)
  next
    case np: False
    show ?thesis
    proof (cases "consumeToken TkText p1")
      case (Inl e2) then show ?thesis using assms c1 np consumeToken_msg by (auto simp: parseRegular_def Let_def)
    next
      case c2: (Inr p2)
      have n1: "ttext (tk p1) \<noteq> []" using c1 c2 by (rule consumeToken_text_nonempty)
      show ?thesis
      proof (cases "consumeToken TkTarget p2")
        case (Inl e3) then show ?thesis using assms c1 np c2 consumeToken_msg by (auto simp: parseRegular_def Let_def)
      next
        case c3: (Inr p3)
        show ?thesis
        proof (cases "readTranslation p3")
          case (Inl e4) then show ?thesis using assms c1 np c2 c3 readTranslation_msg by (auto simp: parseRegular_def Let_def)
        next
          case (Inr res)
          obtain translation p4 where c4: "readTranslation p3 = Inr (translation, p4)"
            using Inr by (cases res) auto
          have "validateTranslation Z (scn p4) (ttext (tk p1)) translation = Inl e"
            using assms c1 np c2 c3 c4 by (simp add: parseRegular_def Let_def split: sum.splits)
          then show ?thesis using validateTranslation_msg [OF n1] by blast
        qed
      qed
    qed
  qed
qed

lemma parseLoop_msg:
  "fst (parseLoop Z pluralInfo out pluralOut p) = Some e \<Longrightarrow> msg e \<noteq> emptyMsg"
proof (induction Z pluralInfo out pluralOut p rule: parseLoop.induct)
  case (1 Z pluralInfo out pluralOut p)
  show ?case
  proof (cases "ttype (tk p) \<noteq> TkEnd")
    case False
    then show ?thesis using "1.prems" by (subst (asm) parseLoop.simps) simp
  next
    case True
    show ?thesis
    proof (cases "parseRegular Z pluralInfo out pluralOut p")
      case (Inl e')
      then have "e = e'" using "1.prems" True by (subst (asm) parseLoop.simps) simp
      then show ?thesis using Inl parseRegular_msg by blast
    next
      case (Inr res)
      obtain out' pluralOut' p' where r: "res = (out', pluralOut', p')" by (cases res) auto
      have "fst (parseLoop Z pluralInfo out' pluralOut' p') = Some e"
        using "1.prems" True Inr r by (subst (asm) parseLoop.simps) simp
      then show ?thesis using "1.IH" [OF True Inr [unfolded r] refl refl] by simp
    qed
  qed
qed

lemma getValue_msg:
  "k \<in> set requiredKeys \<Longrightarrow> getValue items s k = Inl e \<Longrightarrow> msg e \<noteq> emptyMsg"
  using list_all_memD [OF list_msgs(7)]
  by (auto simp: getValue_def errorAt_def split: option.splits)

lemma parseHeaderM_msg:
  assumes "parseHeaderM Z header p = Inl (e, h)"
  shows "msg e \<noteq> emptyMsg"
proof -
  have k: "''language'' \<in> set requiredKeys" "''locale'' \<in> set requiredKeys"
    "''image'' \<in> set requiredKeys" "''plural_count'' \<in> set requiredKeys"
    "''plural_definition'' \<in> set requiredKeys" "''translator'' \<in> set requiredKeys"
    by (simp_all add: requiredKeys_def)
  show ?thesis
    using assms consumeToken_msg getValue_msg [OF k(1)] getValue_msg [OF k(2)] getValue_msg [OF k(3)]
      getValue_msg [OF k(4)] getValue_msg [OF k(5)] getValue_msg [OF k(6)]
    unfolding parseHeaderM_def Let_def
    by (auto split: sum.splits)
qed

text \<open>C10. Every text token the scanner produces has a non-empty text, and no error that
  \<^verbatim>\<open>parseLng\<close> raises has the message \<^verbatim>\<open>Translation source text is empty\<close>: the originals
  that reach validation are texts of text tokens.\<close>

theorem empty_source_unreachable:
  "(scan r = (t, r') \<longrightarrow> ttype t = TkText \<longrightarrow> ttext t \<noteq> [])
   \<and> (fst (parseLng Z byteStream header out pluralOut) = Some e
        \<longrightarrow> msg e \<noteq> ''Translation source text is empty'')"
proof -
  have "msg e \<noteq> emptyMsg" if a: "fst (parseLng Z byteStream header out pluralOut) = Some e"
  proof (cases "parseHeaderM Z header (newLngParser byteStream)")
    case (Inl eh)
    obtain e' h where "eh = (e', h)" by (cases eh)
    then show ?thesis using a Inl parseHeaderM_msg [of Z header "newLngParser byteStream" e' h]
      by (simp add: parseLng_def parse_def)
  next
    case (Inr hp)
    obtain h p1 where hp: "hp = (h, p1)" by (cases hp)
    show ?thesis
    proof (cases "newPluralFormInfo Z (pluralDefinition h) (pluralCount h)")
      case None
      then have "e = errorAt (scn p1) ''Invalid plural form definition''"
        using a Inr hp by (simp add: parseLng_def parse_def)
      then show ?thesis by (simp add: errorAt_def fixed_msgs)
    next
      case (Some pluralInfo)
      then have "fst (parseLoop Z pluralInfo Map.empty Map.empty p1) = Some e"
        using a Inr hp by (simp add: parseLng_def parse_def split: prod.splits)
      then show ?thesis by (rule parseLoop_msg)
    qed
  qed
  then show ?thesis using scan_text_nonempty by (auto simp: emptyMsg_def)
qed

theorem empty_source_unreachable_witness:
  "scan ''abc <source>'' = (\<lparr>ttype = TkText, ttext = ''abc''\<rparr>, ''<source>'')
   \<and> ttype \<lparr>ttype = TkText, ttext = ''abc''\<rparr> = TkText
   \<and> ttext \<lparr>ttype = TkText, ttext = ''abc''\<rparr> \<noteq> []
   \<and> fst (parseLng sampleExternals (''<source> <target> x'') defaultHeader Map.empty Map.empty)
       = Some \<lparr>msg = ''Unexpected token'', row = 0, col = 8\<rparr>
   \<and> msg \<lparr>msg = ''Unexpected token'', row = 0, col = 8\<rparr> \<noteq> ''Translation source text is empty''"
proof -
  have h1: "scan ''abc <source>'' = (\<lparr>ttype = TkText, ttext = ''abc''\<rparr>, ''<source>'')"
    by code_simp
  have h2: "fst (parseLng sampleExternals (''<source> <target> x'') defaultHeader Map.empty Map.empty)
       = Some \<lparr>msg = ''Unexpected token'', row = 0, col = 8\<rparr>"
    by code_simp
  show ?thesis
    using empty_source_unreachable [of "''abc <source>''" "\<lparr>ttype = TkText, ttext = ''abc''\<rparr>"
        "''<source>''" sampleExternals "''<source> <target> x''" defaultHeader Map.empty Map.empty
        "\<lparr>msg = ''Unexpected token'', row = 0, col = 8\<rparr>"] h1 h2
    by simp
qed

section \<open>What the maps hold when parsing fails\<close>

lemma parseLoop_error:
  "fst (parseLoop Z pluralInfo out pluralOut p) = Some e \<Longrightarrow>
     \<exists>n out' pluralOut' p'.
        entriesAfter Z pluralInfo n out pluralOut p = Some (out', pluralOut', p')
        \<and> ttype (tk p') \<noteq> TkEnd
        \<and> parseRegular Z pluralInfo out' pluralOut' p' = Inl e
        \<and> snd (parseLoop Z pluralInfo out pluralOut p) = (out', pluralOut')"
proof (induction Z pluralInfo out pluralOut p rule: parseLoop.induct)
  case (1 Z pluralInfo out pluralOut p)
  show ?case
  proof (cases "ttype (tk p) \<noteq> TkEnd")
    case False
    then show ?thesis using "1.prems" by (subst (asm) parseLoop.simps) simp
  next
    case True
    show ?thesis
    proof (cases "parseRegular Z pluralInfo out pluralOut p")
      case (Inl e')
      have l: "parseLoop Z pluralInfo out pluralOut p = (Some e', out, pluralOut)"
        using True Inl by (subst parseLoop.simps) simp
      then have "e = e'" using "1.prems" by simp
      then have "entriesAfter Z pluralInfo 0 out pluralOut p = Some (out, pluralOut, p)
        \<and> ttype (tk p) \<noteq> TkEnd
        \<and> parseRegular Z pluralInfo out pluralOut p = Inl e
        \<and> snd (parseLoop Z pluralInfo out pluralOut p) = (out, pluralOut)"
        using True Inl l by simp
      then show ?thesis by blast
    next
      case (Inr res)
      obtain out1 pluralOut1 p1 where r: "res = (out1, pluralOut1, p1)" by (cases res) auto
      have l: "parseLoop Z pluralInfo out pluralOut p = parseLoop Z pluralInfo out1 pluralOut1 p1"
        using True Inr r by (subst parseLoop.simps) simp
      then have "fst (parseLoop Z pluralInfo out1 pluralOut1 p1) = Some e" using "1.prems" by simp
      then obtain n out' pluralOut' p' where
        n: "entriesAfter Z pluralInfo n out1 pluralOut1 p1 = Some (out', pluralOut', p')"
        "ttype (tk p') \<noteq> TkEnd" "parseRegular Z pluralInfo out' pluralOut' p' = Inl e"
        "snd (parseLoop Z pluralInfo out1 pluralOut1 p1) = (out', pluralOut')"
        using "1.IH" [OF True Inr [unfolded r] refl refl] by blast
      have "entriesAfter Z pluralInfo (Suc n) out pluralOut p = Some (out', pluralOut', p')"
        using True Inr r n(1) by simp
      then show ?thesis using n l by metis
    qed
  qed
qed

text \<open>C2, amended. \<^verbatim>\<open>parseLng\<close> discards what the two maps held before the call. When it
  raises a \<^verbatim>\<open>ParsingError\<close> in the header or for the plural rule, both maps are empty. When
  it raises in an entry, that entry is the one after some number \<open>n\<close> of entries that each
  parsed and validated, and the maps are as those \<open>n\<close> entries left them: the entries
  before the failing one stay in the maps, the failing entry adds nothing.\<close>

theorem parseLng_error_maps:
  assumes "fst (parseLng Z byteStream header out pluralOut) = Some e"
  shows "case parseHeaderM Z header (newLngParser byteStream) of
           Inl eh \<Rightarrow> snd (snd (parseLng Z byteStream header out pluralOut)) = (Map.empty, Map.empty)
         | Inr (h, p1) \<Rightarrow>
             (case newPluralFormInfo Z (pluralDefinition h) (pluralCount h) of
                None \<Rightarrow> snd (snd (parseLng Z byteStream header out pluralOut)) = (Map.empty, Map.empty)
              | Some pluralInfo \<Rightarrow>
                  (\<exists>n out' pluralOut' p'.
                      entriesAfter Z pluralInfo n Map.empty Map.empty p1 = Some (out', pluralOut', p')
                      \<and> ttype (tk p') \<noteq> TkEnd
                      \<and> parseRegular Z pluralInfo out' pluralOut' p' = Inl e
                      \<and> snd (snd (parseLng Z byteStream header out pluralOut)) = (out', pluralOut')))"
proof (cases "parseHeaderM Z header (newLngParser byteStream)")
  case (Inl eh)
  then show ?thesis by (simp add: parseLng_def parse_def split: prod.splits)
next
  case (Inr hp)
  obtain h p1 where hp: "hp = (h, p1)" by (cases hp)
  show ?thesis
  proof (cases "newPluralFormInfo Z (pluralDefinition h) (pluralCount h)")
    case None
    then show ?thesis using Inr hp by (simp add: parseLng_def parse_def)
  next
    case (Some pluralInfo)
    have pl: "parseLng Z byteStream header out pluralOut =
        (fst (parseLoop Z pluralInfo Map.empty Map.empty p1), h,
         snd (parseLoop Z pluralInfo Map.empty Map.empty p1))"
      using Inr hp Some by (simp add: parseLng_def parse_def split: prod.splits)
    then have "fst (parseLoop Z pluralInfo Map.empty Map.empty p1) = Some e" using assms by simp
    then obtain n out' pluralOut' p' where
      "entriesAfter Z pluralInfo n Map.empty Map.empty p1 = Some (out', pluralOut', p')"
      "ttype (tk p') \<noteq> TkEnd" "parseRegular Z pluralInfo out' pluralOut' p' = Inl e"
      "snd (parseLoop Z pluralInfo Map.empty Map.empty p1) = (out', pluralOut')"
      using parseLoop_error by blast
    then show ?thesis using Inr hp Some pl by auto
  qed
qed

theorem parseLng_error_maps_witness:
  "fst (parseLng sampleExternals
          (sampleHeader @ ''<source> Save'' @ [LF] @ ''<target> Speichern'' @ [LF] @ ''<source> Open'')
          defaultHeader Map.empty Map.empty)
     = Some \<lparr>msg = ''Unexpected token'', row = 9, col = 13\<rparr>
   \<and> (case parseHeaderM sampleExternals defaultHeader (newLngParser
          (sampleHeader @ ''<source> Save'' @ [LF] @ ''<target> Speichern'' @ [LF] @ ''<source> Open'')) of
           Inl eh \<Rightarrow> snd (snd (parseLng sampleExternals
              (sampleHeader @ ''<source> Save'' @ [LF] @ ''<target> Speichern'' @ [LF] @ ''<source> Open'')
              defaultHeader Map.empty Map.empty)) = (Map.empty, Map.empty)
         | Inr (h, p1) \<Rightarrow>
             (case newPluralFormInfo sampleExternals (pluralDefinition h) (pluralCount h) of
                None \<Rightarrow> snd (snd (parseLng sampleExternals
                  (sampleHeader @ ''<source> Save'' @ [LF] @ ''<target> Speichern'' @ [LF] @ ''<source> Open'')
                  defaultHeader Map.empty Map.empty)) = (Map.empty, Map.empty)
              | Some pluralInfo \<Rightarrow>
                  (\<exists>n out' pluralOut' p'.
                      entriesAfter sampleExternals pluralInfo n Map.empty Map.empty p1 = Some (out', pluralOut', p')
                      \<and> ttype (tk p') \<noteq> TkEnd
                      \<and> parseRegular sampleExternals pluralInfo out' pluralOut' p'
                          = Inl \<lparr>msg = ''Unexpected token'', row = 9, col = 13\<rparr>
                      \<and> snd (snd (parseLng sampleExternals
                          (sampleHeader @ ''<source> Save'' @ [LF] @ ''<target> Speichern'' @ [LF] @ ''<source> Open'')
                          defaultHeader Map.empty Map.empty)) = (out', pluralOut'))))"
proof -
  have h: "fst (parseLng sampleExternals
          (sampleHeader @ ''<source> Save'' @ [LF] @ ''<target> Speichern'' @ [LF] @ ''<source> Open'')
          defaultHeader Map.empty Map.empty)
     = Some \<lparr>msg = ''Unexpected token'', row = 9, col = 13\<rparr>"
    by code_simp
  show ?thesis using parseLng_error_maps [OF h] h by blast
qed

text \<open>C2, as stated, fails: a file whose second entry is cut short raises an error, and
  the singular map holds the first entry.\<close>

theorem parseLng_partial_result_counterexample:
  "fst (parseLng sampleExternals
          (sampleHeader @ ''<source> Save'' @ [LF] @ ''<target> Speichern'' @ [LF] @ ''<source> Open'')
          defaultHeader Map.empty Map.empty)
     = Some \<lparr>msg = ''Unexpected token'', row = 9, col = 13\<rparr>
   \<and> fst (snd (snd (parseLng sampleExternals
          (sampleHeader @ ''<source> Save'' @ [LF] @ ''<target> Speichern'' @ [LF] @ ''<source> Open'')
          defaultHeader Map.empty Map.empty))) ''Save'' = Some ''Speichern''"
  by code_simp

section \<open>Duplicate originals\<close>










text \<open>A file with the original \<^verbatim>\<open>Save\<close> twice parses, and keeps the first translation.\<close>

lemma duplicate_file_example:
  "fst (parseLng sampleExternals
          (sampleHeader @ ''<source> Save'' @ [LF] @ ''<target> Speichern'' @ [LF]
           @ ''<source> Save'' @ [LF] @ ''<target> Sichern'')
          defaultHeader Map.empty Map.empty) = None
   \<and> fst (snd (snd (parseLng sampleExternals
          (sampleHeader @ ''<source> Save'' @ [LF] @ ''<target> Speichern'' @ [LF]
           @ ''<source> Save'' @ [LF] @ ''<target> Sichern'')
          defaultHeader Map.empty Map.empty))) ''Save'' = Some ''Speichern''"
  by code_simp

end
